theory Spec2Isabelle
  imports Complex_Main "HOL-Library.Word" "HOL-Library.Sublist"
begin

section \<open>JavaScript strings\<close>

text \<open>
  A JavaScript string is a sequence of 16-bit code units. The string literals of
  \<^verbatim>\<open>src/pages/index.jsx\<close> are ASCII, but for the first three characters of the success
  message (U+00E2, U+0153, U+2026 in the file), which are written out as code units; \<open>js\<close>
  embeds an ASCII literal unit by unit.
\<close>

type_synonym code_unit = "16 word"

type_synonym jsstring = "code_unit list"

definition js :: "string \<Rightarrow> jsstring" where
  "js cs = map of_char cs"

text \<open>\<^verbatim>\<open>s.includes(p)\<close>: \<open>p\<close> occurs in \<open>s\<close> as a contiguous run of code units.\<close>

fun js_includes :: "jsstring \<Rightarrow> jsstring \<Rightarrow> bool" where
  "js_includes [] p = (p = [])"
| "js_includes (c # cs) p = (prefix p (c # cs) \<or> js_includes cs p)"

section \<open>JavaScript numbers\<close>

text \<open>
  A Number is an IEEE 754 binary64 value: NaN, an infinity, or a finite value, kept here
  as a sign (\<open>True\<close> for negative) and the exact rational magnitude, so that \<open>-0\<close> is
  \<open>Finite True 0\<close>. Every arithmetic result is rounded to the nearest binary64 value,
  ties to even (\<open>round_to_double\<close>).
\<close>

datatype number = NaN | Infinity bool | Finite bool rat

fun bitlength :: "nat \<Rightarrow> nat" where
  "bitlength n = (if n = 0 then 0 else Suc (bitlength (n div 2)))"

declare bitlength.simps [simp del]

text \<open>For \<open>0 < x\<close>, the exponent \<open>e\<close> with \<open>2 ^ e \<le> x < 2 ^ (e + 1)\<close>.\<close>

definition floor_log2 :: "rat \<Rightarrow> int" where
  "floor_log2 x =
     (if 1 \<le> x then int (bitlength (nat \<lfloor>x\<rfloor>)) - 1
      else - int (bitlength (nat (\<lceil>1 / x\<rceil> - 1))))"

definition pow2 :: "int \<Rightarrow> rat" where
  "pow2 k = (if 0 \<le> k then 2 ^ nat k else 1 / 2 ^ nat (- k))"

definition round_half_even :: "rat \<Rightarrow> int" where
  "round_half_even x =
     (let f = \<lfloor>x\<rfloor>; r = x - of_int f
      in if r < 1 / 2 then f
         else if 1 / 2 < r then f + 1
         else if even f then f else f + 1)"

text \<open>
  The binary64 value nearest to the magnitude \<open>x\<close>: 53 significant bits down to the
  exponent \<open>-1022\<close>, a fixed spacing of \<open>2 ^ -1074\<close> below (subnormals, and zero on
  underflow), infinity once the rounded value reaches \<open>2 ^ 1024\<close>.
\<close>

definition ulp_exponent :: "rat \<Rightarrow> int" where
  "ulp_exponent x = max (floor_log2 x) (- 1022) - 52"

definition round_to_double :: "bool \<Rightarrow> rat \<Rightarrow> number" where
  "round_to_double negative x =
     (if x = 0 then Finite negative 0
      else
        let q = ulp_exponent x;
            y = of_int (round_half_even (x / pow2 q)) * pow2 q
        in if 2 ^ 1024 \<le> y then Infinity negative else Finite negative y)"

text \<open>
  The finite binary64 magnitudes, for stating what \<open>round_to_double\<close> returns: a significand
  below \<open>2\<^sup>5\<^sup>3\<close> times a power of two from \<open>2 ^ -1074\<close> to \<open>2 ^ 971\<close>.
\<close>

definition binary64_magnitude :: "rat \<Rightarrow> bool" where
  "binary64_magnitude y \<longleftrightarrow>
     (\<exists>m e. y = of_nat m * pow2 e \<and> m < 2 ^ 53 \<and> - 1074 \<le> e \<and> e \<le> 971)"

text \<open>The operator \<^verbatim>\<open>*\<close> on Numbers (Number::multiply).\<close>

fun number_times :: "number \<Rightarrow> number \<Rightarrow> number" where
  "number_times NaN _ = NaN"
| "number_times _ NaN = NaN"
| "number_times (Infinity s) (Infinity t) = Infinity (s \<noteq> t)"
| "number_times (Infinity s) (Finite t y) = (if y = 0 then NaN else Infinity (s \<noteq> t))"
| "number_times (Finite s x) (Infinity t) = (if x = 0 then NaN else Infinity (s \<noteq> t))"
| "number_times (Finite s x) (Finite t y) = round_to_double (s \<noteq> t) (x * y)"

text \<open>
  \<^verbatim>\<open>Math.round\<close>: a value that is not finite or is integral is returned as it is; a value
  in \<open>(0, 0.5)\<close> gives \<open>+0\<close>, one in \<open>[-0.5, 0)\<close> gives \<open>-0\<close>; otherwise the nearest
  integer, the one towards \<open>+\<infinity>\<close> on a tie.
\<close>

fun Math_round :: "number \<Rightarrow> number" where
  "Math_round NaN = NaN"
| "Math_round (Infinity s) = Infinity s"
| "Math_round (Finite s x) =
     (if x = of_int \<lfloor>x\<rfloor> then Finite s x
      else if \<not> s then (if x < 1 / 2 then Finite False 0 else Finite False (of_int \<lfloor>x + 1 / 2\<rfloor>))
      else (if x \<le> 1 / 2 then Finite True 0 else Finite True (of_int \<lceil>x - 1 / 2\<rceil>)))"

fun isNaN :: "number \<Rightarrow> bool" where
  "isNaN NaN = True"
| "isNaN _ = False"

text \<open>The comparison \<^verbatim>\<open>x > 0\<close>.\<close>

fun greater_than_zero :: "number \<Rightarrow> bool" where
  "greater_than_zero NaN = False"
| "greater_than_zero (Infinity s) = (\<not> s)"
| "greater_than_zero (Finite s x) = (\<not> s \<and> 0 < x)"

text \<open>
  \<^verbatim>\<open>parseFloat\<close>: leading white space is dropped, then the longest prefix that is a
  StrDecimalLiteral is read (a sign, then \<^verbatim>\<open>Infinity\<close> or digits with an optional
  fraction and an optional exponent); anything after it is ignored, and NaN is the result
  when there is no such prefix. The literal's exact decimal value is rounded to binary64.
\<close>

definition isStrWhiteSpaceChar :: "code_unit \<Rightarrow> bool" where
  "isStrWhiteSpaceChar c =
     (c \<in> {0x9, 0xA, 0xB, 0xC, 0xD, 0x20, 0xA0, 0x1680, 0x2028, 0x2029, 0x202F, 0x205F,
            0x3000, 0xFEFF} \<or> (0x2000 \<le> c \<and> c \<le> 0x200A))"

definition isDecimalDigit :: "code_unit \<Rightarrow> bool" where
  "isDecimalDigit c = (0x30 \<le> c \<and> c \<le> 0x39)"

definition digitsValue :: "jsstring \<Rightarrow> nat" where
  "digitsValue ds = foldl (\<lambda>a c. 10 * a + (unat c - 48)) 0 ds"

definition exponentPart :: "jsstring \<Rightarrow> int" where
  "exponentPart rest =
     (case rest of
        [] \<Rightarrow> 0
      | c # r \<Rightarrow>
          if c = 0x65 \<or> c = 0x45 then
            (case r of
               [] \<Rightarrow> 0
             | sign # r' \<Rightarrow>
                 if sign = 0x2D then - int (digitsValue (takeWhile isDecimalDigit r'))
                 else if sign = 0x2B then int (digitsValue (takeWhile isDecimalDigit r'))
                 else int (digitsValue (takeWhile isDecimalDigit r)))
          else 0)"

definition pow10 :: "int \<Rightarrow> rat" where
  "pow10 k = (if 0 \<le> k then 10 ^ nat k else 1 / 10 ^ nat (- k))"

definition strUnsignedDecimalLiteral :: "bool \<Rightarrow> jsstring \<Rightarrow> number" where
  "strUnsignedDecimalLiteral negative literal =
     (if prefix (js ''Infinity'') literal then Infinity negative
      else
        let intDigits = takeWhile isDecimalDigit literal;
            rest1 = dropWhile isDecimalDigit literal;
            hasPoint = (rest1 \<noteq> [] \<and> hd rest1 = 0x2E);
            fracDigits = (if hasPoint then takeWhile isDecimalDigit (tl rest1) else []);
            rest2 = (if hasPoint then dropWhile isDecimalDigit (tl rest1) else rest1)
        in if intDigits = [] \<and> fracDigits = [] then NaN
           else round_to_double negative
                  (of_nat (digitsValue (intDigits @ fracDigits))
                     * pow10 (exponentPart rest2 - int (length fracDigits))))"

definition parseFloat :: "jsstring \<Rightarrow> number" where
  "parseFloat inputString =
     (let trimmed = dropWhile isStrWhiteSpaceChar inputString
      in case trimmed of
           [] \<Rightarrow> NaN
         | c # rest \<Rightarrow>
             if c = 0x2D then strUnsignedDecimalLiteral True rest
             else if c = 0x2B then strUnsignedDecimalLiteral False rest
             else strUnsignedDecimalLiteral False trimmed)"

text \<open>
  Line 120 of \<^verbatim>\<open>sendTransaction\<close>:
  \<^verbatim>\<open>const lamports = Math.round(parseFloat(amount) * 1e9)\<close>.
\<close>

definition lamports_of :: "jsstring \<Rightarrow> number" where
  "lamports_of amount = Math_round (number_times (parseFloat amount) (Finite False 1000000000))"

text \<open>
  The ledger's transfer instruction (not part of the component) holds the lamports in an
  unsigned 64-bit field: a count it can carry is a non-negative integer below \<open>2\<^sup>6\<^sup>4\<close>.
\<close>

definition usable_lamports :: "number \<Rightarrow> bool" where
  "usable_lamports v \<longleftrightarrow> (\<exists>n. n < 2 ^ 64 \<and> v = Finite False (of_nat n))"

section \<open>The component state and its surroundings\<close>

type_synonym bytes = "8 word list"

type_synonym pubkey = bytes

text \<open>The eight \<^verbatim>\<open>useState\<close> cells of \<^verbatim>\<open>SolTransferApp\<close>; \<open>wallet\<close> is \<open>None\<close> for \<^verbatim>\<open>null\<close>.\<close>

record state =
  receiverAddress :: jsstring
  amount :: jsstring
  confirmation :: jsstring
  wallet :: "pubkey option"
  isLoading :: bool
  error :: jsstring
  isAddressValid :: bool
  isAmountValid :: bool

definition initial_state :: state where
  "initial_state =
     \<lparr>receiverAddress = [], amount = js ''0.01'', confirmation = [], wallet = None,
      isLoading = False, error = [], isAddressValid = True, isAmountValid = True\<rparr>"

text \<open>
  A value that a call throws (or a promise rejects with): its \<^verbatim>\<open>message\<close> property is a
  string, or it has none (\<^verbatim>\<open>err.message\<close> is \<^verbatim>\<open>undefined\<close>).
\<close>

datatype thrown = WithMessage jsstring | WithoutMessage

record transfer_params =
  fromPubkey :: pubkey
  toPubkey :: pubkey
  lamports :: number

datatype instruction = TransferInstruction transfer_params

record transaction =
  instructions :: "instruction list"
  feePayer :: "pubkey option"
  recentBlockhash :: "jsstring option"

datatype signed_transaction = SignedTransaction transaction bytes

text \<open>
  What the component calls but does not define: the injected wallet (\<^verbatim>\<open>window.solana\<close>), the
  ledger client (\<^verbatim>\<open>connection\<close>) and the constructors of \<^verbatim>\<open>@solana/web3.js\<close>. Each call
  returns a value or throws; the theorems hold for every such environment. \<open>connect\<close>
  takes the \<^verbatim>\<open>onlyIfTrusted\<close> flag and resolves to the response's \<^verbatim>\<open>publicKey\<close>, if it has one.
\<close>

record env =
  isPhantom :: bool
  connect :: "bool \<Rightarrow> thrown + pubkey option"
  newPublicKey :: "jsstring \<Rightarrow> thrown + pubkey"
  systemProgramTransfer :: "transfer_params \<Rightarrow> thrown + instruction"
  getLatestBlockhash :: "thrown + jsstring \<times> nat"
  signTransaction :: "transaction \<Rightarrow> thrown + signed_transaction"
  serialize :: "signed_transaction \<Rightarrow> thrown + bytes"
  sendRawTransaction :: "bytes \<Rightarrow> thrown + jsstring"
  confirmTransaction :: "jsstring \<Rightarrow> jsstring \<Rightarrow> nat \<Rightarrow> thrown + unit"

text \<open>
  A handler reads the state of the render it was created in and has effects in order: calls
  of a state setter, and calls into the environment. A handler is modelled by the list of
  its effects; \<open>commit\<close> applies the setters to the state, \<open>snapshots\<close> lists the states
  passed through.
\<close>

datatype effect =
    SetReceiverAddress jsstring
  | SetAmount jsstring
  | SetConfirmation jsstring
  | SetWallet "pubkey option"
  | SetIsLoading bool
  | SetError jsstring
  | SetIsAddressValid bool
  | SetIsAmountValid bool
  | NewPublicKey jsstring
  | WalletConnect bool
  | SystemProgramTransfer transfer_params
  | GetLatestBlockhash
  | SignTransaction transaction
  | Serialize signed_transaction
  | SendRawTransaction bytes
  | ConfirmTransaction jsstring jsstring nat
  | ConsoleLog
  | ConsoleError

fun apply_effect :: "effect \<Rightarrow> state \<Rightarrow> state" where
  "apply_effect (SetReceiverAddress v) s = s\<lparr>receiverAddress := v\<rparr>"
| "apply_effect (SetAmount v) s = s\<lparr>amount := v\<rparr>"
| "apply_effect (SetConfirmation v) s = s\<lparr>confirmation := v\<rparr>"
| "apply_effect (SetWallet v) s = s\<lparr>wallet := v\<rparr>"
| "apply_effect (SetIsLoading v) s = s\<lparr>isLoading := v\<rparr>"
| "apply_effect (SetError v) s = s\<lparr>error := v\<rparr>"
| "apply_effect (SetIsAddressValid v) s = s\<lparr>isAddressValid := v\<rparr>"
| "apply_effect (SetIsAmountValid v) s = s\<lparr>isAmountValid := v\<rparr>"
| "apply_effect _ s = s"

fun commit :: "state \<Rightarrow> effect list \<Rightarrow> state" where
  "commit s [] = s"
| "commit s (e # fx) = commit (apply_effect e s) fx"

fun snapshots :: "state \<Rightarrow> effect list \<Rightarrow> state list" where
  "snapshots s [] = [s]"
| "snapshots s (e # fx) = s # snapshots (apply_effect e s) fx"

fun is_ledger_call :: "effect \<Rightarrow> bool" where
  "is_ledger_call GetLatestBlockhash = True"
| "is_ledger_call (SendRawTransaction _) = True"
| "is_ledger_call (ConfirmTransaction _ _ _) = True"
| "is_ledger_call _ = False"

fun is_wallet_call :: "effect \<Rightarrow> bool" where
  "is_wallet_call (WalletConnect _) = True"
| "is_wallet_call (SignTransaction _) = True"
| "is_wallet_call _ = False"

definition external_calls :: "effect list \<Rightarrow> effect list" where
  "external_calls fx = filter (\<lambda>e. is_ledger_call e \<or> is_wallet_call e) fx"

definition ledger_calls :: "effect list \<Rightarrow> effect list" where
  "ledger_calls fx = filter is_ledger_call fx"

section \<open>The handlers of \<^verbatim>\<open>SolTransferApp\<close>\<close>

text \<open>\<^verbatim>\<open>"prefix" + err.message\<close>: an undefined message is appended as \<^verbatim>\<open>undefined\<close>.\<close>

fun message_text :: "thrown \<Rightarrow> jsstring" where
  "message_text (WithMessage m) = m"
| "message_text WithoutMessage = js ''undefined''"

definition checkIfWalletIsConnected :: "env \<Rightarrow> effect list" where
  "checkIfWalletIsConnected env =
     (if \<not> isPhantom env then []
      else
        case connect env True of
          Inr response \<Rightarrow>
            (case response of
               Some publicKey \<Rightarrow> [WalletConnect True, SetWallet (Some publicKey)]
             | None \<Rightarrow> [WalletConnect True])
        | Inl err \<Rightarrow>
            if err = WithMessage (js ''User rejected the request.'')
            then [WalletConnect True, ConsoleLog]
            else [WalletConnect True, ConsoleError])"

definition connectWallet :: "env \<Rightarrow> effect list" where
  "connectWallet env =
     (if \<not> isPhantom env
      then [SetError (js ''Phantom wallet not installed. Get it from https://phantom.app/'')]
      else
        [SetIsLoading True, WalletConnect False]
        @ (case connect env False of
             Inr response \<Rightarrow> [SetWallet response, SetError []]
           | Inl err \<Rightarrow> [SetError (js ''Error connecting to wallet: '' @ message_text err)])
        @ [SetIsLoading False])"

text \<open>The validators return their verdict and record it in the validity flag.\<close>

definition validateAddress :: "env \<Rightarrow> jsstring \<Rightarrow> bool \<times> effect list" where
  "validateAddress env address =
     (case newPublicKey env address of
        Inr _ \<Rightarrow> (True, [NewPublicKey address, SetIsAddressValid True])
      | Inl _ \<Rightarrow> (False, [NewPublicKey address, SetIsAddressValid False]))"

definition validateAmount :: "jsstring \<Rightarrow> bool \<times> effect list" where
  "validateAmount v =
     (let floatValue = parseFloat v;
          isValid = (\<not> isNaN floatValue \<and> greater_than_zero floatValue)
      in (isValid, [SetIsAmountValid isValid]))"

text \<open>An empty string is falsy: the validator is then not called.\<close>

definition handleAddressChange :: "env \<Rightarrow> jsstring \<Rightarrow> effect list" where
  "handleAddressChange env address =
     SetReceiverAddress address # (if address \<noteq> [] then snd (validateAddress env address) else [])"

definition handleAmountChange :: "jsstring \<Rightarrow> effect list" where
  "handleAmountChange v =
     SetAmount v # (if v \<noteq> [] then snd (validateAmount v) else [])"

text \<open>
  One call inside the \<^verbatim>\<open>try\<close> block: it is recorded, and either throws, which ends the
  block, or hands its result to the rest of the block.
\<close>

definition invoke ::
  "effect \<Rightarrow> thrown + 'a \<Rightarrow> ('a \<Rightarrow> effect list \<times> thrown option) \<Rightarrow> effect list \<times> thrown option"
where
  "invoke call result rest =
     (case result of
        Inl err \<Rightarrow> ([call], Some err)
      | Inr v \<Rightarrow> (call # fst (rest v), snd (rest v)))"

definition submitted_message :: jsstring where
  "submitted_message = js ''Transaction submitted...''"

definition success_message :: "jsstring \<Rightarrow> jsstring" where
  "success_message signature =
     [0xE2, 0x153, 0x2026] @ js '' Transaction Successful: '' @ signature"

text \<open>
  Lines 119 to 142, the \<^verbatim>\<open>try\<close> block: its effects, and what it threw, if anything.
  \<open>w\<close> is the connected wallet, \<open>s\<close> the state the handler was created in.
\<close>

definition try_block :: "env \<Rightarrow> pubkey \<Rightarrow> state \<Rightarrow> effect list \<times> thrown option" where
  "try_block env w s =
     invoke (NewPublicKey (receiverAddress s)) (newPublicKey env (receiverAddress s)) (\<lambda>toKey.
     let params = \<lparr>fromPubkey = w, toPubkey = toKey, lamports = lamports_of (amount s)\<rparr> in
     invoke (SystemProgramTransfer params) (systemProgramTransfer env params) (\<lambda>instruction.
     let tx = \<lparr>instructions = [instruction], feePayer = Some w, recentBlockhash = None\<rparr> in
     invoke GetLatestBlockhash (getLatestBlockhash env) (\<lambda>(blockhash, lastValidBlockHeight).
     let tx = tx\<lparr>recentBlockhash := Some blockhash\<rparr> in
     invoke (SignTransaction tx) (signTransaction env tx) (\<lambda>signed.
     invoke (Serialize signed) (serialize env signed) (\<lambda>raw.
     invoke (SendRawTransaction raw) (sendRawTransaction env raw) (\<lambda>signature.
     invoke (SetConfirmation submitted_message) (Inr ()) (\<lambda>_.
     invoke (ConfirmTransaction signature blockhash lastValidBlockHeight)
       (confirmTransaction env signature blockhash lastValidBlockHeight) (\<lambda>_.
     ([SetConfirmation (success_message signature)], None)))))))))"

text \<open>Lines 144 to 153: the message shown for a thrown message.\<close>

definition errorMessage :: "jsstring \<Rightarrow> jsstring" where
  "errorMessage message =
     (if js_includes message (js ''insufficient funds'')
        then js ''Insufficient funds for this transaction.''
      else if js_includes message (js ''invalid address'')
        then js ''Invalid wallet address.''
      else if js_includes message (js ''User rejected'')
        then js ''Transaction was rejected by the user.''
      else js ''Transaction Failed'' @ js '': '' @ message)"

text \<open>
  How the promise of an \<^verbatim>\<open>async\<close> handler settles. The \<^verbatim>\<open>catch\<close> block calls
  \<^verbatim>\<open>err.message.includes\<close>: without a message that call throws a TypeError, no error is
  set and the promise is rejected (after the \<^verbatim>\<open>finally\<close> block).
\<close>

datatype completion = Fulfilled | Rejected

fun catch_block :: "thrown \<Rightarrow> effect list \<times> completion" where
  "catch_block (WithMessage message) = ([SetError (errorMessage message)], Fulfilled)"
| "catch_block WithoutMessage = ([], Rejected)"

definition sendTransaction :: "env \<Rightarrow> state \<Rightarrow> effect list \<times> completion" where
  "sendTransaction env s =
     (case wallet s of
        None \<Rightarrow> ([SetError (js ''Please connect your wallet first.'')], Fulfilled)
      | Some w \<Rightarrow>
          let (addressOk, fx1) = validateAddress env (receiverAddress s) in
          if \<not> addressOk then (fx1 @ [SetError (js ''Invalid receiver address.'')], Fulfilled)
          else
            let (amountOk, fx2) = validateAmount (amount s) in
            if \<not> amountOk then (fx1 @ fx2 @ [SetError (js ''Invalid amount.'')], Fulfilled)
            else
              let (body, outcome) = try_block env w s;
                  (handler, settled) =
                    (case outcome of None \<Rightarrow> ([], Fulfilled) | Some err \<Rightarrow> catch_block err)
              in (fx1 @ fx2 @ [SetIsLoading True, SetError [], SetConfirmation []]
                    @ body @ handler @ [SetIsLoading False],
                  settled))"

text \<open>The submit button is disabled by \<^verbatim>\<open>isLoading || !isAddressValid || !isAmountValid\<close>.\<close>

definition submit_disabled :: "state \<Rightarrow> bool" where
  "submit_disabled s = (isLoading s \<or> \<not> isAddressValid s \<or> \<not> isAmountValid s)"

section \<open>States the user can reach\<close>

text \<open>
  The states the page can show, starting from the initial render: the silent connect on
  mount, a click on the connect button (shown while no wallet is connected and nothing is
  loading), an edit of either input (shown once a wallet is connected), a click on the
  submit button (enabled unless \<open>submit_disabled\<close>). Every state a handler passes through
  counts, under every environment.
\<close>

inductive reachable :: "state \<Rightarrow> bool" where
  start: "reachable initial_state"
| mount: "t \<in> set (snapshots initial_state (checkIfWalletIsConnected env)) \<Longrightarrow> reachable t"
| connect_click:
    "reachable s \<Longrightarrow> wallet s = None \<Longrightarrow> \<not> isLoading s
      \<Longrightarrow> t \<in> set (snapshots s (connectWallet env)) \<Longrightarrow> reachable t"
| edit_address:
    "reachable s \<Longrightarrow> wallet s \<noteq> None
      \<Longrightarrow> t = commit s (handleAddressChange env v) \<Longrightarrow> reachable t"
| edit_amount:
    "reachable s \<Longrightarrow> wallet s \<noteq> None
      \<Longrightarrow> t = commit s (handleAmountChange v) \<Longrightarrow> reachable t"
| submit_click:
    "reachable s \<Longrightarrow> wallet s \<noteq> None \<Longrightarrow> \<not> submit_disabled s
      \<Longrightarrow> t \<in> set (snapshots s (fst (sendTransaction env s))) \<Longrightarrow> reachable t"

section \<open>Sample environments and states\<close>

text \<open>
  A wallet and a ledger client that accept everything, variations of it in which one call
  fails, and states reached under them; the concrete instances of the theorems below are
  evaluated on these.
\<close>

definition sender_key :: pubkey where
  "sender_key = replicate 32 7"

definition system_address :: jsstring where
  "system_address = js ''11111111111111111111111111111111''"

definition system_key :: pubkey where
  "system_key = replicate 32 0"

definition env_ok :: env where
  "env_ok =
     \<lparr>isPhantom = True,
      connect = (\<lambda>_. Inr (Some sender_key)),
      newPublicKey = (\<lambda>a. if a = system_address then Inr system_key
                           else Inl (WithMessage (js ''Invalid public key input''))),
      systemProgramTransfer = (\<lambda>p. Inr (TransferInstruction p)),
      getLatestBlockhash = Inr (js ''hash'', 1000),
      signTransaction = (\<lambda>tx. Inr (SignedTransaction tx [1])),
      serialize = (\<lambda>_. Inr [2]),
      sendRawTransaction = (\<lambda>_. Inr (js ''5sig'')),
      confirmTransaction = (\<lambda>_ _ _. Inr ())\<rparr>"



definition env_rejecting :: env where
  "env_rejecting =
     env_ok\<lparr>signTransaction := (\<lambda>_. Inl (WithMessage (js ''User rejected the request.'')))\<rparr>"

definition env_invalid :: env where
  "env_invalid =
     env_ok\<lparr>sendRawTransaction := (\<lambda>_. Inl (WithMessage (js ''invalid address'')))\<rparr>"

definition s_connected :: state where
  "s_connected = commit initial_state (connectWallet env_ok)"

definition s_ready :: state where
  "s_ready = commit s_connected (handleAddressChange env_ok system_address)"


definition s_failed :: state where
  "s_failed = commit s_connected (fst (sendTransaction env_ok s_connected))"

definition s_large :: state where
  "s_large = commit s_ready (handleAmountChange (js ''1e300''))"

section \<open>The order of the submission steps\<close>

text \<open>
  The steps of a submission, as the effects show them: a validator recording its verdict,
  the transfer instruction being built, the blockhash fetch, the signing request, the
  broadcast and the confirmation wait.
\<close>

datatype step = Validate | Build | FetchBlockhash | Sign | Broadcast | Confirm

fun step_of :: "effect \<Rightarrow> step option" where
  "step_of (SetIsAddressValid _) = Some Validate"
| "step_of (SetIsAmountValid _) = Some Validate"
| "step_of (SystemProgramTransfer _) = Some Build"
| "step_of GetLatestBlockhash = Some FetchBlockhash"
| "step_of (SignTransaction _) = Some Sign"
| "step_of (SendRawTransaction _) = Some Broadcast"
| "step_of (ConfirmTransaction _ _ _) = Some Confirm"
| "step_of _ = None"

fun steps :: "effect list \<Rightarrow> step list" where
  "steps [] = []"
| "steps (e # fx) = (case step_of e of Some k \<Rightarrow> k # steps fx | None \<Rightarrow> steps fx)"

text \<open>Further sample states: inputs of the scenarios, and states after a finished attempt.\<close>

definition sample_transfer :: transfer_params where
  "sample_transfer =
     \<lparr>fromPubkey = sender_key, toPubkey = system_key, lamports = Finite False 10000000\<rparr>"

definition sample_transaction :: transaction where
  "sample_transaction =
     \<lparr>instructions = [TransferInstruction sample_transfer], feePayer = Some sender_key,
      recentBlockhash = Some (js ''hash'')\<rparr>"

definition s_bad_address :: state where
  "s_bad_address =
     commit (commit s_connected (handleAddressChange env_ok (js ''not-an-address'')))
       (handleAmountChange (js ''1''))"

definition s_zero :: state where
  "s_zero = commit s_ready (handleAmountChange (js ''0''))"

definition s_done :: state where
  "s_done = commit s_ready (fst (sendTransaction env_ok s_ready))"

definition s_cleared :: state where
  "s_cleared = commit s_done (handleAddressChange env_ok [])"

definition s_both :: state where
  "s_both = commit s_cleared (fst (sendTransaction env_ok s_cleared))"

definition s_edited :: state where
  "s_edited = commit s_failed (handleAddressChange env_ok system_address)"


section \<open>Evaluating numbers\<close>

text \<open>
  Rewrite rules that let the simplifier compute \<open>bitlength\<close>, \<open>\<lfloor>_\<rfloor>\<close> and \<open>\<lceil>_\<rceil>\<close> on
  numerals, and with them \<open>parseFloat\<close> and the rounding on concrete strings.
\<close>

lemma bitlength_numeral [simp]:
  "bitlength 0 = 0"
  "bitlength (Suc 0) = 1"
  "bitlength (numeral Num.One) = 1"
  "bitlength (numeral (Num.Bit0 k)) = Suc (bitlength (numeral k))"
  "bitlength (numeral (Num.Bit1 k)) = Suc (bitlength (numeral k))"
proof -
  show "bitlength 0 = 0" by (simp add: bitlength.simps)
  show "bitlength (Suc 0) = 1" by (simp add: bitlength.simps)
  show "bitlength (numeral Num.One) = 1" by (simp add: bitlength.simps)
  have "numeral (Num.Bit0 k) div (2::nat) = numeral k" by simp
  then show "bitlength (numeral (Num.Bit0 k)) = Suc (bitlength (numeral k))"
    by (subst bitlength.simps) simp
  have "numeral (Num.Bit1 k) div (2::nat) = numeral k" by simp
  then show "bitlength (numeral (Num.Bit1 k)) = Suc (bitlength (numeral k))"
    by (subst bitlength.simps) simp
qed

lemma floor_rat_numeral_div [simp]:
  "\<lfloor>numeral a / numeral b :: rat\<rfloor> = numeral a div numeral b"
  using floor_divide_of_int_eq [of "numeral a" "numeral b", where ?'a = rat] by simp

lemma ceiling_rat_numeral_div [simp]:
  "\<lceil>numeral a / numeral b :: rat\<rceil> = - ((- numeral a) div numeral b)"
  using ceiling_divide_eq_div [of "numeral a" "numeral b", where ?'a = rat] by simp

lemma floor_rat_one_div [simp]:
  "\<lfloor>1 / numeral b :: rat\<rfloor> = 1 div numeral b"
  using floor_divide_of_int_eq [of 1 "numeral b", where ?'a = rat] by simp

lemma ceiling_rat_one_div [simp]:
  "\<lceil>1 / numeral b :: rat\<rceil> = - ((- 1) div numeral b)"
  using ceiling_divide_eq_div [of 1 "numeral b", where ?'a = rat] by simp

lemmas number_eval =
  parseFloat_def strUnsignedDecimalLiteral_def js_def isStrWhiteSpaceChar_def
  isDecimalDigit_def digitsValue_def exponentPart_def pow10_def round_to_double_def ulp_exponent_def
  floor_log2_def pow2_def round_half_even_def Let_def

section \<open>Unfolding the handlers\<close>

lemma validateAddress_effects:
  "snd (validateAddress env a) = [NewPublicKey a, SetIsAddressValid (fst (validateAddress env a))]"
  by (simp add: validateAddress_def split: sum.splits)

lemma validateAddress_ok_iff:
  "fst (validateAddress env a) \<longleftrightarrow> (\<exists>k. newPublicKey env a = Inr k)"
  by (simp add: validateAddress_def split: sum.splits)

lemma validateAmount_effects:
  "snd (validateAmount v) = [SetIsAmountValid (fst (validateAmount v))]"
  by (simp add: validateAmount_def Let_def)

lemma sendTransaction_guarded:
  assumes "wallet s = Some w"
  shows "sendTransaction env s =
     (if \<not> fst (validateAddress env (receiverAddress s))
      then ([NewPublicKey (receiverAddress s), SetIsAddressValid False,
             SetError (js ''Invalid receiver address.'')], Fulfilled)
      else if \<not> fst (validateAmount (amount s))
      then ([NewPublicKey (receiverAddress s), SetIsAddressValid True, SetIsAmountValid False,
             SetError (js ''Invalid amount.'')], Fulfilled)
      else ([NewPublicKey (receiverAddress s), SetIsAddressValid True, SetIsAmountValid True,
             SetIsLoading True, SetError [], SetConfirmation []]
            @ fst (try_block env w s)
            @ (case snd (try_block env w s) of
                 None \<Rightarrow> [] | Some err \<Rightarrow> fst (catch_block err))
            @ [SetIsLoading False],
            case snd (try_block env w s) of
              None \<Rightarrow> Fulfilled | Some err \<Rightarrow> snd (catch_block err)))"
proof -
  obtain okA where a: "validateAddress env (receiverAddress s)
      = (okA, [NewPublicKey (receiverAddress s), SetIsAddressValid okA])"
    using validateAddress_effects [of env "receiverAddress s"]
    by (cases "validateAddress env (receiverAddress s)") simp
  obtain okM where m: "validateAmount (amount s) = (okM, [SetIsAmountValid okM])"
    using validateAmount_effects [of "amount s"]
    by (cases "validateAmount (amount s)") simp
  show ?thesis
    using assms
    by (simp add: sendTransaction_def a m split: prod.splits option.splits)
qed

lemma try_block_cases:
  fixes env w s
  defines "a \<equiv> receiverAddress s"
  defines "params \<equiv> \<lambda>k. \<lparr>fromPubkey = w, toPubkey = k, lamports = lamports_of (amount s)\<rparr>"
  defines "tx \<equiv> \<lambda>i bh. \<lparr>instructions = [i], feePayer = Some w, recentBlockhash = Some bh\<rparr>"
  obtains
    (key_throws) e where
      "newPublicKey env a = Inl e"
      "try_block env w s = ([NewPublicKey a], Some e)"
  | (transfer_throws) k e where
      "newPublicKey env a = Inr k" "systemProgramTransfer env (params k) = Inl e"
      "try_block env w s = ([NewPublicKey a, SystemProgramTransfer (params k)], Some e)"
  | (blockhash_throws) k i e where
      "newPublicKey env a = Inr k" "systemProgramTransfer env (params k) = Inr i"
      "getLatestBlockhash env = Inl e"
      "try_block env w s =
         ([NewPublicKey a, SystemProgramTransfer (params k), GetLatestBlockhash], Some e)"
  | (sign_throws) k i bh h e where
      "newPublicKey env a = Inr k" "systemProgramTransfer env (params k) = Inr i"
      "getLatestBlockhash env = Inr (bh, h)" "signTransaction env (tx i bh) = Inl e"
      "try_block env w s =
         ([NewPublicKey a, SystemProgramTransfer (params k), GetLatestBlockhash,
           SignTransaction (tx i bh)], Some e)"
  | (serialize_throws) k i bh h sg e where
      "newPublicKey env a = Inr k" "systemProgramTransfer env (params k) = Inr i"
      "getLatestBlockhash env = Inr (bh, h)" "signTransaction env (tx i bh) = Inr sg"
      "serialize env sg = Inl e"
      "try_block env w s =
         ([NewPublicKey a, SystemProgramTransfer (params k), GetLatestBlockhash,
           SignTransaction (tx i bh), Serialize sg], Some e)"
  | (broadcast_throws) k i bh h sg raw e where
      "newPublicKey env a = Inr k" "systemProgramTransfer env (params k) = Inr i"
      "getLatestBlockhash env = Inr (bh, h)" "signTransaction env (tx i bh) = Inr sg"
      "serialize env sg = Inr raw" "sendRawTransaction env raw = Inl e"
      "try_block env w s =
         ([NewPublicKey a, SystemProgramTransfer (params k), GetLatestBlockhash,
           SignTransaction (tx i bh), Serialize sg, SendRawTransaction raw], Some e)"
  | (confirm_throws) k i bh h sg raw sig e where
      "newPublicKey env a = Inr k" "systemProgramTransfer env (params k) = Inr i"
      "getLatestBlockhash env = Inr (bh, h)" "signTransaction env (tx i bh) = Inr sg"
      "serialize env sg = Inr raw" "sendRawTransaction env raw = Inr sig"
      "confirmTransaction env sig bh h = Inl e"
      "try_block env w s =
         ([NewPublicKey a, SystemProgramTransfer (params k), GetLatestBlockhash,
           SignTransaction (tx i bh), Serialize sg, SendRawTransaction raw,
           SetConfirmation submitted_message, ConfirmTransaction sig bh h], Some e)"
  | (confirmed) k i bh h sg raw sig where
      "newPublicKey env a = Inr k" "systemProgramTransfer env (params k) = Inr i"
      "getLatestBlockhash env = Inr (bh, h)" "signTransaction env (tx i bh) = Inr sg"
      "serialize env sg = Inr raw" "sendRawTransaction env raw = Inr sig"
      "confirmTransaction env sig bh h = Inr ()"
      "try_block env w s =
         ([NewPublicKey a, SystemProgramTransfer (params k), GetLatestBlockhash,
           SignTransaction (tx i bh), Serialize sg, SendRawTransaction raw,
           SetConfirmation submitted_message, ConfirmTransaction sig bh h,
           SetConfirmation (success_message sig)], None)"
proof (cases "newPublicKey env a")
  case (Inl e)
  then show ?thesis
    using key_throws [of e] by (simp add: try_block_def invoke_def a_def)
next
  case k: (Inr k)
  show ?thesis
  proof (cases "systemProgramTransfer env (params k)")
    case (Inl e)
    then show ?thesis
      using transfer_throws [of k e] k
      by (simp add: try_block_def invoke_def a_def params_def)
  next
    case i: (Inr i)
    show ?thesis
    proof (cases "getLatestBlockhash env")
      case (Inl e)
      then show ?thesis
        using blockhash_throws [of k i e] k i
        by (simp add: try_block_def invoke_def a_def params_def)
    next
      case (Inr b)
      then obtain bh h where b: "getLatestBlockhash env = Inr (bh, h)"
        by (cases b) simp
      show ?thesis
      proof (cases "signTransaction env (tx i bh)")
        case (Inl e)
        then show ?thesis
          using sign_throws [of k i bh h e] k i b
          by (simp add: try_block_def invoke_def a_def params_def tx_def)
      next
        case sg: (Inr sg)
        show ?thesis
        proof (cases "serialize env sg")
          case (Inl e)
          then show ?thesis
            using serialize_throws [of k i bh h sg e] k i b sg
            by (simp add: try_block_def invoke_def a_def params_def tx_def)
        next
          case raw: (Inr raw)
          show ?thesis
          proof (cases "sendRawTransaction env raw")
            case (Inl e)
            then show ?thesis
              using broadcast_throws [of k i bh h sg raw e] k i b sg raw
              by (simp add: try_block_def invoke_def a_def params_def tx_def)
          next
            case sig: (Inr sig)
            show ?thesis
            proof (cases "confirmTransaction env sig bh h")
              case (Inl e)
              then show ?thesis
                using confirm_throws [of k i bh h sg raw sig e] k i b sg raw sig
                by (simp add: try_block_def invoke_def a_def params_def tx_def)
            next
              case (Inr u)
              then show ?thesis
                using confirmed [of k i bh h sg raw sig] k i b sg raw sig
                by (simp add: try_block_def invoke_def a_def params_def tx_def)
            qed
          qed
        qed
      qed
    qed
  qed
qed

lemma steps_append: "steps (xs @ ys) = steps xs @ steps ys"
  by (induction xs) (auto split: option.splits)

lemma steps_catch_block [simp]: "steps (fst (catch_block e)) = []"
  by (cases e) simp_all

lemma set_catch_block:
  "x \<in> set (fst (catch_block e)) \<Longrightarrow> \<exists>m. x = SetError m"
  by (cases e) simp_all

section \<open>The sample runs\<close>

lemma parseFloat_0_01:
  "parseFloat (js ''0.01'') = Finite False (5764607523034235 / 576460752303423488)"
  by (simp add: number_eval)

lemma parseFloat_1: "parseFloat (js ''1'') = Finite False 1"
  by (simp add: number_eval)

lemma parseFloat_0: "parseFloat (js ''0'') = Finite False 0"
  by (simp add: number_eval)

lemma validateAmount_0_01: "validateAmount (js ''0.01'') = (True, [SetIsAmountValid True])"
  by (simp add: validateAmount_def parseFloat_0_01)

lemma validateAmount_1: "validateAmount (js ''1'') = (True, [SetIsAmountValid True])"
  by (simp add: validateAmount_def parseFloat_1)

lemma validateAmount_0: "validateAmount (js ''0'') = (False, [SetIsAmountValid False])"
  by (simp add: validateAmount_def parseFloat_0)

lemma s_connected_eq:
  "s_connected =
     \<lparr>receiverAddress = [], amount = js ''0.01'', confirmation = [], wallet = Some sender_key,
      isLoading = False, error = [], isAddressValid = True, isAmountValid = True\<rparr>"
  by (simp add: s_connected_def connectWallet_def env_ok_def initial_state_def)

lemma newPublicKey_ok_system: "newPublicKey env_ok system_address = Inr system_key"
  by (simp add: env_ok_def)

lemma newPublicKey_ok_empty:
  "newPublicKey env_ok [] = Inl (WithMessage (js ''Invalid public key input''))"
  by (simp add: env_ok_def system_address_def js_def)

lemma newPublicKey_ok_bad:
  "newPublicKey env_ok (js ''not-an-address'') = Inl (WithMessage (js ''Invalid public key input''))"
  by (simp add: env_ok_def system_address_def js_def)

lemma s_ready_eq:
  "s_ready =
     \<lparr>receiverAddress = system_address, amount = js ''0.01'', confirmation = [],
      wallet = Some sender_key, isLoading = False, error = [], isAddressValid = True,
      isAmountValid = True\<rparr>"
proof -
  have "system_address \<noteq> []"
    by (simp add: system_address_def js_def)
  then show ?thesis
    by (simp add: s_ready_def s_connected_eq handleAddressChange_def validateAddress_def
        newPublicKey_ok_system)
qed

lemma s_bad_address_eq:
  "s_bad_address =
     \<lparr>receiverAddress = js ''not-an-address'', amount = js ''1'', confirmation = [],
      wallet = Some sender_key, isLoading = False, error = [], isAddressValid = False,
      isAmountValid = True\<rparr>"
proof -
  have "js ''not-an-address'' \<noteq> []" "js ''1'' \<noteq> []"
    by (simp_all add: js_def)
  then show ?thesis
    by (simp add: s_bad_address_def s_connected_eq handleAddressChange_def validateAddress_def
        newPublicKey_ok_bad handleAmountChange_def validateAmount_1)
qed

lemma s_zero_eq:
  "s_zero =
     \<lparr>receiverAddress = system_address, amount = js ''0'', confirmation = [],
      wallet = Some sender_key, isLoading = False, error = [], isAddressValid = True,
      isAmountValid = False\<rparr>"
proof -
  have "js ''0'' \<noteq> []"
    by (simp add: js_def)
  then show ?thesis
    by (simp add: s_zero_def s_ready_eq handleAmountChange_def validateAmount_0)
qed

lemma lamports_of_0_01: "lamports_of (js ''0.01'') = Finite False 10000000"
  unfolding lamports_of_def parseFloat_0_01
  by (simp add: round_to_double_def ulp_exponent_def floor_log2_def pow2_def round_half_even_def Let_def)

lemma try_block_ok_ready:
  "try_block env_ok sender_key s_ready =
     ([NewPublicKey system_address, SystemProgramTransfer sample_transfer, GetLatestBlockhash,
       SignTransaction sample_transaction,
       Serialize (SignedTransaction sample_transaction [1]), SendRawTransaction [2],
       SetConfirmation submitted_message, ConfirmTransaction (js ''5sig'') (js ''hash'') 1000,
       SetConfirmation (success_message (js ''5sig''))], None)"
  by (simp add: try_block_def invoke_def Let_def s_ready_eq env_ok_def lamports_of_0_01
      sample_transfer_def sample_transaction_def)

lemma guards_ready:
  "wallet s_ready = Some sender_key"
  "receiverAddress s_ready = system_address"
  "fst (validateAmount (amount s_ready))"
  by (simp_all add: s_ready_eq validateAmount_0_01)

lemma validateAddress_ok_system: "fst (validateAddress env_ok system_address)"
  by (simp add: validateAddress_def newPublicKey_ok_system)

lemma sendTransaction_ok_ready:
  "sendTransaction env_ok s_ready =
     ([NewPublicKey system_address, SetIsAddressValid True, SetIsAmountValid True,
       SetIsLoading True, SetError [], SetConfirmation [],
       NewPublicKey system_address, SystemProgramTransfer sample_transfer, GetLatestBlockhash,
       SignTransaction sample_transaction,
       Serialize (SignedTransaction sample_transaction [1]), SendRawTransaction [2],
       SetConfirmation submitted_message, ConfirmTransaction (js ''5sig'') (js ''hash'') 1000,
       SetConfirmation (success_message (js ''5sig'')), SetIsLoading False], Fulfilled)"
  using guards_ready validateAddress_ok_system
  by (simp add: sendTransaction_guarded [of s_ready sender_key] try_block_ok_ready)

lemma env_rejecting_simps:
  "newPublicKey env_rejecting = newPublicKey env_ok"
  "systemProgramTransfer env_rejecting = systemProgramTransfer env_ok"
  "getLatestBlockhash env_rejecting = getLatestBlockhash env_ok"
  "signTransaction env_rejecting tx = Inl (WithMessage (js ''User rejected the request.''))"
  by (simp_all add: env_rejecting_def)

lemma try_block_rejecting_ready:
  "try_block env_rejecting sender_key s_ready =
     ([NewPublicKey system_address, SystemProgramTransfer sample_transfer, GetLatestBlockhash,
       SignTransaction sample_transaction],
      Some (WithMessage (js ''User rejected the request.'')))"
  by (simp add: try_block_def invoke_def Let_def s_ready_eq env_rejecting_simps env_ok_def
      lamports_of_0_01 sample_transfer_def sample_transaction_def)

lemma errorMessage_rejected:
  "errorMessage (js ''User rejected the request.'') = js ''Transaction was rejected by the user.''"
  by (simp add: errorMessage_def js_def)

lemma sendTransaction_rejecting_ready:
  "sendTransaction env_rejecting s_ready =
     ([NewPublicKey system_address, SetIsAddressValid True, SetIsAmountValid True,
       SetIsLoading True, SetError [], SetConfirmation [],
       NewPublicKey system_address, SystemProgramTransfer sample_transfer, GetLatestBlockhash,
       SignTransaction sample_transaction,
       SetError (js ''Transaction was rejected by the user.''), SetIsLoading False], Fulfilled)"
proof -
  have "fst (validateAddress env_rejecting system_address)"
    by (simp add: validateAddress_def env_rejecting_simps newPublicKey_ok_system)
  then show ?thesis
    using guards_ready
    by (simp add: sendTransaction_guarded [of s_ready sender_key] try_block_rejecting_ready
        errorMessage_rejected)
qed

lemma parseFloat_half_lamport:
  "parseFloat (js ''0.0000000005'') = Finite False (4835703278458517 / 9671406556917033397649408)"
  by (simp add: number_eval)

lemma product_half_lamport:
  "number_times (parseFloat (js ''0.0000000005'')) (Finite False 1000000000)
     = Finite False (1 / 2)"
  unfolding parseFloat_half_lamport
  by (simp add: round_to_double_def ulp_exponent_def floor_log2_def pow2_def round_half_even_def Let_def)

lemma parseFloat_1e300:
  "parseFloat (js ''1e300'') = Finite False 1000000000000000052504760255204420248704468581108159154915854115511802457988908195786371375080447864043704443832883878176942523235360430575644792184786706982848387200926575803737830233794788090059368953234970799945081119038967640880074652742780142494579258788820056842838115669472196386865459400540160"
  by (simp add: number_eval)

lemma lamports_of_1e300: "lamports_of (js ''1e300'') = Infinity False"
  unfolding lamports_of_def parseFloat_1e300
  by (simp add: round_to_double_def ulp_exponent_def floor_log2_def pow2_def round_half_even_def Let_def)

lemma s_large_eq:
  "s_large =
     \<lparr>receiverAddress = system_address, amount = js ''1e300'', confirmation = [],
      wallet = Some sender_key, isLoading = False, error = [], isAddressValid = True,
      isAmountValid = True\<rparr>"
proof -
  have "js ''1e300'' \<noteq> []"
    by (simp add: js_def)
  then show ?thesis
    by (simp add: s_large_def s_ready_eq handleAmountChange_def validateAmount_def
        parseFloat_1e300)
qed

section \<open>Properties of the rounding\<close>

lemma pow2_pos: "0 < pow2 k"
  by (simp add: pow2_def)

lemma round_half_even_nonneg: "0 \<le> x \<Longrightarrow> 0 \<le> round_half_even x"
proof -
  assume "0 \<le> x"
  then have "0 \<le> \<lfloor>x\<rfloor>"
    by simp
  then show ?thesis
    by (simp add: round_half_even_def Let_def)
qed

lemma round_to_double_nonneg:
  assumes "0 \<le> x"
  shows "round_to_double sg x = Infinity sg
       \<or> (\<exists>y. 0 \<le> y \<and> round_to_double sg x = Finite sg y)"
proof (cases "x = 0")
  case True
  then show ?thesis
    by (simp add: round_to_double_def)
next
  case False
  define q where "q = max (floor_log2 x) (- 1022) - 52"
  define y where "y = of_int (round_half_even (x / pow2 q)) * pow2 q"
  have "0 \<le> x / pow2 q"
    using assms pow2_pos [of q] by simp
  then have "0 \<le> y"
    using round_half_even_nonneg pow2_pos [of q] by (simp add: y_def)
  moreover have "round_to_double sg x = (if 2 ^ 1024 \<le> y then Infinity sg else Finite sg y)"
    using False by (simp add: round_to_double_def ulp_exponent_def Let_def q_def y_def)
  ultimately show ?thesis
    by auto
qed

lemma Math_round_nonneg:
  assumes "0 \<le> x"
  shows "Math_round (Finite False x) = Finite False (of_int (round x))"
proof (cases "x = of_int \<lfloor>x\<rfloor>")
  case True
  then have "of_int (round x) = x"
    by (metis round_of_int)
  with True show ?thesis
    by simp
next
  case False
  show ?thesis
  proof (cases "x < 1 / 2")
    case True
    with assms have "\<lfloor>x + 1 / 2\<rfloor> = 0"
      by linarith
    with False True show ?thesis
      by (simp add: round_def)
  next
    case False
    with \<open>x \<noteq> of_int \<lfloor>x\<rfloor>\<close> show ?thesis
      by (simp add: round_def)
  qed
qed

lemma validateAmount_ok_iff:
  "fst (validateAmount a) \<longleftrightarrow>
     parseFloat a = Infinity False \<or> (\<exists>x. 0 < x \<and> parseFloat a = Finite False x)"
  by (cases "parseFloat a") (auto simp: validateAmount_def Let_def)

lemma product_of_valid:
  assumes "fst (validateAmount a)"
  shows "number_times (parseFloat a) (Finite False 1000000000) = Infinity False
       \<or> (\<exists>y. 0 \<le> y \<and> number_times (parseFloat a) (Finite False 1000000000) = Finite False y)"
proof -
  from assms consider "parseFloat a = Infinity False"
    | x where "0 < x" "parseFloat a = Finite False x"
    by (auto simp: validateAmount_ok_iff)
  then show ?thesis
  proof cases
    case 1
    then show ?thesis by simp
  next
    case 2
    then have "0 \<le> x * 1000000000"
      by simp
    from round_to_double_nonneg [OF this, of False] 2 show ?thesis
      by simp
  qed
qed

lemma transfer_in_log:
  assumes "wallet s = Some w"
    and "SystemProgramTransfer p \<in> set (fst (sendTransaction env s))"
  shows "fromPubkey p = w \<and> lamports p = lamports_of (amount s)"
proof -
  have "SystemProgramTransfer p \<in> set (fst (try_block env w s))"
    using assms set_catch_block [of "SystemProgramTransfer p"]
    by (auto simp: sendTransaction_guarded split: if_splits option.splits)
  then show ?thesis
    by (cases env w s rule: try_block_cases) auto
qed

section \<open>More sample runs, and states the user can reach\<close>

lemma commit_in_snapshots: "commit s fx \<in> set (snapshots s fx)"
  by (induction fx arbitrary: s) simp_all

lemma commit_append: "commit s (xs @ ys) = commit (commit s xs) ys"
  by (induction xs arbitrary: s) simp_all

lemma reachable_connected: "reachable s_connected"
proof -
  have "reachable initial_state"
    by (rule reachable.start)
  moreover have "wallet initial_state = None" "\<not> isLoading initial_state"
    by (simp_all add: initial_state_def)
  moreover have "s_connected \<in> set (snapshots initial_state (connectWallet env_ok))"
    unfolding s_connected_def by (rule commit_in_snapshots)
  ultimately show ?thesis
    by (rule reachable.connect_click)
qed

lemma reachable_ready: "reachable s_ready"
  using reachable_connected
  by (rule reachable.edit_address [where env = env_ok and v = system_address])
    (simp_all add: s_connected_eq s_ready_def)

lemma s_done_eq:
  "s_done =
     \<lparr>receiverAddress = system_address, amount = js ''0.01'',
      confirmation = success_message (js ''5sig''), wallet = Some sender_key,
      isLoading = False, error = [], isAddressValid = True, isAmountValid = True\<rparr>"
  by (simp add: s_done_def sendTransaction_ok_ready) (simp add: s_ready_eq)

lemma reachable_done: "reachable s_done"
proof -
  have "wallet s_ready \<noteq> None" "\<not> submit_disabled s_ready"
    by (simp_all add: s_ready_eq submit_disabled_def)
  moreover have "s_done \<in> set (snapshots s_ready (fst (sendTransaction env_ok s_ready)))"
    unfolding s_done_def by (rule commit_in_snapshots)
  ultimately show ?thesis
    using reachable_ready by (rule reachable.submit_click [rotated 1])
qed

lemma sendTransaction_ok_empty_address:
  assumes "wallet s = Some w" "receiverAddress s = []"
  shows "sendTransaction env_ok s =
     ([NewPublicKey [], SetIsAddressValid False, SetError (js ''Invalid receiver address.'')],
      Fulfilled)"
  using assms by (simp add: sendTransaction_guarded validateAddress_def newPublicKey_ok_empty)

lemma s_failed_eq:
  "s_failed =
     \<lparr>receiverAddress = [], amount = js ''0.01'', confirmation = [], wallet = Some sender_key,
      isLoading = False, error = js ''Invalid receiver address.'', isAddressValid = False,
      isAmountValid = True\<rparr>"
proof -
  have "sendTransaction env_ok s_connected =
     ([NewPublicKey [], SetIsAddressValid False, SetError (js ''Invalid receiver address.'')],
      Fulfilled)"
    by (rule sendTransaction_ok_empty_address [of _ sender_key]) (simp_all add: s_connected_eq)
  then show ?thesis
    by (simp add: s_failed_def) (simp add: s_connected_eq)
qed

lemma reachable_failed: "reachable s_failed"
proof -
  have "wallet s_connected \<noteq> None" "\<not> submit_disabled s_connected"
    by (simp_all add: s_connected_eq submit_disabled_def)
  moreover have "s_failed \<in> set (snapshots s_connected (fst (sendTransaction env_ok s_connected)))"
    unfolding s_failed_def by (rule commit_in_snapshots)
  ultimately show ?thesis
    using reachable_connected by (rule reachable.submit_click [rotated 1])
qed

lemma s_edited_eq:
  "s_edited =
     \<lparr>receiverAddress = system_address, amount = js ''0.01'', confirmation = [],
      wallet = Some sender_key, isLoading = False, error = js ''Invalid receiver address.'',
      isAddressValid = True, isAmountValid = True\<rparr>"
proof -
  have "system_address \<noteq> []"
    by (simp add: system_address_def js_def)
  then show ?thesis
    by (simp add: s_edited_def s_failed_eq handleAddressChange_def validateAddress_def
        newPublicKey_ok_system)
qed

lemma reachable_edited: "reachable s_edited"
  using reachable_failed
  by (rule reachable.edit_address [where env = env_ok and v = system_address])
    (simp_all add: s_failed_eq s_edited_def)

lemma js_append: "js (xs @ ys) = js xs @ js ys"
  by (simp add: js_def)


lemma sendTransaction_outcome:
  assumes "wallet s = Some w"
    and "fst (validateAddress env (receiverAddress s))"
    and "fst (validateAmount (amount s))"
    and "try_block env w s = (body, Some (WithMessage m))"
  shows "sendTransaction env s =
     ([NewPublicKey (receiverAddress s), SetIsAddressValid True, SetIsAmountValid True,
       SetIsLoading True, SetError [], SetConfirmation []]
      @ body @ [SetError (errorMessage m), SetIsLoading False], Fulfilled)"
  using assms by (simp add: sendTransaction_guarded)

lemma error_after_run:
  "error (commit s (fx @ [SetError e, SetIsLoading b])) = e"
  "isLoading (commit s (fx @ [SetError e, SetIsLoading b])) = b"
  by (simp_all add: commit_append)

lemma env_invalid_simps:
  "newPublicKey env_invalid = newPublicKey env_ok"
  "systemProgramTransfer env_invalid = systemProgramTransfer env_ok"
  "getLatestBlockhash env_invalid = getLatestBlockhash env_ok"
  "signTransaction env_invalid = signTransaction env_ok"
  "serialize env_invalid = serialize env_ok"
  "sendRawTransaction env_invalid raw = Inl (WithMessage (js ''invalid address''))"
  by (simp_all add: env_invalid_def)

lemma try_block_invalid_ready:
  "try_block env_invalid sender_key s_ready =
     ([NewPublicKey system_address, SystemProgramTransfer sample_transfer, GetLatestBlockhash,
       SignTransaction sample_transaction,
       Serialize (SignedTransaction sample_transaction [1]), SendRawTransaction [2]],
      Some (WithMessage (js ''invalid address'')))"
  by (simp add: try_block_def invoke_def Let_def s_ready_eq env_invalid_simps env_ok_def
      lamports_of_0_01 sample_transfer_def sample_transaction_def)

lemma guards_invalid_ready: "fst (validateAddress env_invalid (receiverAddress s_ready))"
  by (simp add: guards_ready(2) validateAddress_def env_invalid_simps newPublicKey_ok_system)


lemma submitted_nonempty: "submitted_message \<noteq> []"
  by (simp add: submitted_message_def js_def)






lemma s_cleared_eq:
  "s_cleared =
     \<lparr>receiverAddress = [], amount = js ''0.01'',
      confirmation = success_message (js ''5sig''), wallet = Some sender_key,
      isLoading = False, error = [], isAddressValid = True, isAmountValid = True\<rparr>"
  by (simp add: s_cleared_def s_done_eq handleAddressChange_def)

lemma reachable_cleared: "reachable s_cleared"
  using reachable_done
  by (rule reachable.edit_address [where env = env_ok and v = "[]"])
    (simp_all add: s_done_eq s_cleared_def)

lemma s_both_eq:
  "s_both =
     \<lparr>receiverAddress = [], amount = js ''0.01'',
      confirmation = success_message (js ''5sig''), wallet = Some sender_key,
      isLoading = False, error = js ''Invalid receiver address.'', isAddressValid = False,
      isAmountValid = True\<rparr>"
proof -
  have "sendTransaction env_ok s_cleared =
     ([NewPublicKey [], SetIsAddressValid False, SetError (js ''Invalid receiver address.'')],
      Fulfilled)"
    by (rule sendTransaction_ok_empty_address [of _ sender_key]) (simp_all add: s_cleared_eq)
  then show ?thesis
    by (simp add: s_both_def) (simp add: s_cleared_eq)
qed

lemma reachable_both: "reachable s_both"
proof -
  have "wallet s_cleared \<noteq> None" "\<not> submit_disabled s_cleared"
    by (simp_all add: s_cleared_eq submit_disabled_def)
  moreover have "s_both \<in> set (snapshots s_cleared (fst (sendTransaction env_ok s_cleared)))"
    unfolding s_both_def by (rule commit_in_snapshots)
  ultimately show ?thesis
    using reachable_cleared by (rule reachable.submit_click [rotated 1])
qed

lemma reachable_large: "reachable s_large"
  using reachable_ready
  by (rule reachable.edit_amount [where v = "js ''1e300''"])
    (simp_all add: s_ready_eq s_large_def)

section \<open>Checks of the string and number model\<close>

text \<open>
  \<open>js_includes\<close> is the substring test; \<open>parseFloat\<close> on sample strings gives the binary64
  values (as exact fractions) that a JavaScript engine gives.
\<close>

lemma js_includes_iff: "js_includes s p \<longleftrightarrow> (\<exists>before after. s = before @ p @ after)"
proof (induction s)
  case Nil
  then show ?case by simp
next
  case (Cons c cs)
  show ?case
  proof
    assume "js_includes (c # cs) p"
    then consider "prefix p (c # cs)" | "js_includes cs p"
      by auto
    then show "\<exists>before after. c # cs = before @ p @ after"
    proof cases
      case 1
      then obtain after where "c # cs = p @ after"
        by (auto simp: prefix_def)
      then have "c # cs = [] @ p @ after"
        by simp
      then show ?thesis
        by blast
    next
      case 2
      with Cons.IH obtain before after where "cs = before @ p @ after"
        by blast
      then have "c # cs = (c # before) @ p @ after"
        by simp
      then show ?thesis
        by blast
    qed
  next
    assume "\<exists>before after. c # cs = before @ p @ after"
    then obtain before after where split: "c # cs = before @ p @ after"
      by blast
    show "js_includes (c # cs) p"
    proof (cases before)
      case Nil
      with split have "prefix p (c # cs)"
        by (simp add: prefix_def)
      then show ?thesis
        by simp
    next
      case (Cons b before')
      with split have "cs = before' @ p @ after"
        by simp
      with Cons.IH have "js_includes cs p"
        by blast
      then show ?thesis
        by simp
    qed
  qed
qed

lemma parseFloat_samples:
  "parseFloat (js ''0.1'') = Finite False (3602879701896397 / 36028797018963968)"
  "parseFloat (js ''9007199254740993'') = Finite False 9007199254740992"
  "parseFloat (js ''  +12.5e-3 SOL'') = Finite False (3602879701896397 / 288230376151711744)"
  "parseFloat (js ''-0'') = Finite True 0"
  "parseFloat (js ''.5'') = Finite False (1 / 2)"
  "parseFloat (js ''5.e1'') = Finite False 50"
  "parseFloat (js ''1e'') = Finite False 1"
  "parseFloat (js ''-Infinity'') = Infinity True"
  "parseFloat (js ''.'') = NaN"
  "parseFloat (js ''e5'') = NaN"
  "parseFloat [] = NaN"
  by (simp_all add: number_eval)

lemma parseFloat_tiny: "parseFloat (js ''1e-10'') = Finite False (7737125245533627 / 77371252455336267181195264)"
  by (simp add: number_eval)

lemma lamports_of_tiny: "lamports_of (js ''1e-10'') = Finite False 0"
  unfolding lamports_of_def parseFloat_tiny
  by (simp add: round_to_double_def ulp_exponent_def floor_log2_def pow2_def round_half_even_def Let_def)

section \<open>What the rounding to binary64 returns\<close>

text \<open>
  \<open>round_to_double\<close> returns a binary64 magnitude nearest to its argument, the one with the
  even significand when two are equally near, and infinity from \<open>2\<^sup>1\<^sup>0\<^sup>2\<^sup>4 - 2\<^sup>9\<^sup>7\<^sup>0\<close> on.
\<close>

lemma pow2_power_int: "pow2 k = power_int 2 k"
  by (simp add: pow2_def power_int_def field_simps)

lemma pow2_add: "pow2 (a + b) = pow2 a * pow2 b"
  by (simp add: pow2_power_int power_int_add)

lemma pow2_nat: "pow2 (int n) = 2 ^ n"
  by (simp add: pow2_def)

lemma pow2_neg_nat: "pow2 (- int n) = 1 / 2 ^ n"
  by (simp add: pow2_power_int power_int_minus field_simps)

lemma pow2_less_iff: "pow2 a < pow2 b \<longleftrightarrow> a < b"
proof
  assume "pow2 a < pow2 b"
  show "a < b"
  proof (rule ccontr)
    assume "\<not> a < b"
    then have "b \<le> a" by simp
    then have "pow2 b \<le> pow2 a"
      unfolding pow2_power_int by (intro power_int_increasing) simp_all
    with \<open>pow2 a < pow2 b\<close> show False by simp
  qed
next
  assume "a < b"
  then show "pow2 a < pow2 b"
    unfolding pow2_power_int by (intro power_int_strict_increasing) simp_all
qed

lemma pow2_le_iff: "pow2 a \<le> pow2 b \<longleftrightarrow> a \<le> b"
  using pow2_less_iff [of b a] by (simp add: not_less [symmetric])

lemma bitlength_bounds:
  "0 < n \<Longrightarrow> 2 ^ (bitlength n - 1) \<le> n \<and> n < 2 ^ bitlength n"
proof (induction n rule: bitlength.induct)
  case (1 n)
  show ?case
  proof (cases "n div 2 = 0")
    case True
    with "1.prems" have "n = 1"
      by (simp add: div_eq_0_iff) 
    then show ?thesis
      by simp
  next
    case False
    then have pos: "0 < n div 2"
      by simp
    from "1.prems" have n: "n \<noteq> 0"
      by simp
    from "1.IH" [OF n pos]
    have lo: "2 ^ (bitlength (n div 2) - 1) \<le> n div 2" and hi: "n div 2 < 2 ^ bitlength (n div 2)"
      by simp_all
    have b: "bitlength n = Suc (bitlength (n div 2))"
      using n by (subst bitlength.simps) simp
    have "0 < bitlength (n div 2)"
      using pos by (subst bitlength.simps) simp
    then have "2 ^ (bitlength n - 1) = 2 * 2 ^ (bitlength (n div 2) - 1)"
      unfolding b by (cases "bitlength (n div 2)") simp_all
    also have "\<dots> \<le> 2 * (n div 2)"
      using lo by simp
    also have "\<dots> \<le> n"
      by simp
    finally have "2 ^ (bitlength n - 1) \<le> n" .
    moreover have "n < 2 * 2 ^ bitlength (n div 2)"
      using hi by linarith
    ultimately show ?thesis
      by (simp add: b)
  qed
qed


lemma floor_log2_bounds:
  assumes "0 < x"
  shows "pow2 (floor_log2 x) \<le> x \<and> x < pow2 (floor_log2 x + 1)"
proof (cases "1 \<le> x")
  case True
  define n where "n = nat \<lfloor>x\<rfloor>"
  have n: "0 < n" "of_nat n \<le> x" "x < of_nat n + 1"
    using True by (simp_all add: n_def) linarith+
  have e: "floor_log2 x = int (bitlength n) - 1"
    using True by (simp add: floor_log2_def n_def)
  from bitlength_bounds [OF n(1)]
  have lo: "2 ^ (bitlength n - 1) \<le> n" and hi: "n < 2 ^ bitlength n"
    by simp_all
  have b: "0 < bitlength n"
    using n(1) by (subst bitlength.simps) simp
  then have "floor_log2 x = int (bitlength n - 1)"
    using e by simp
  then have "pow2 (floor_log2 x) = 2 ^ (bitlength n - 1)"
    by (simp only: pow2_nat)
  also have "\<dots> \<le> of_nat n"
    using lo by (metis of_nat_le_iff of_nat_numeral of_nat_power)
  finally have "pow2 (floor_log2 x) \<le> x"
    using n(2) by simp
  moreover have "floor_log2 x + 1 = int (bitlength n)"
    using e by simp
  then have "pow2 (floor_log2 x + 1) = 2 ^ bitlength n"
    by (simp only: pow2_nat)
  moreover have "of_nat n + 1 \<le> (2 ^ bitlength n :: rat)"
  proof -
    from hi have "n + 1 \<le> 2 ^ bitlength n"
      by simp
    then have "(of_nat (n + 1) :: rat) \<le> of_nat (2 ^ bitlength n)"
      by (simp only: of_nat_le_iff)
    then show ?thesis
      by simp
  qed
  ultimately show ?thesis
    using n(3) by simp
next
  case False
  with assms have inv: "1 < 1 / x"
    by simp
  define n where "n = nat (\<lceil>1 / x\<rceil> - 1)"
  have c: "2 \<le> \<lceil>1 / x\<rceil>"
    using inv by linarith
  then have n: "0 < n" "of_nat n < 1 / x" "1 / x \<le> of_nat n + 1"
    by (simp_all add: n_def) linarith+
  have e: "floor_log2 x = - int (bitlength n)"
    using False by (simp add: floor_log2_def n_def)
  from bitlength_bounds [OF n(1)]
  have lo: "2 ^ (bitlength n - 1) \<le> n" and hi: "n < 2 ^ bitlength n"
    by simp_all
  have b: "0 < bitlength n"
    using n(1) by (subst bitlength.simps) simp
  have "of_nat n + 1 \<le> (2 ^ bitlength n :: rat)"
  proof -
    from hi have "n + 1 \<le> 2 ^ bitlength n"
      by simp
    then have "(of_nat (n + 1) :: rat) \<le> of_nat (2 ^ bitlength n)"
      by (simp only: of_nat_le_iff)
    then show ?thesis
      by simp
  qed
  with n(3) have "1 / x \<le> 2 ^ bitlength n"
    by simp
  then have "1 / 2 ^ bitlength n \<le> x"
    using assms by (simp add: field_simps)
  moreover have "pow2 (floor_log2 x) = 1 / 2 ^ bitlength n"
    unfolding e by (rule pow2_neg_nat)
  ultimately have low: "pow2 (floor_log2 x) \<le> x"
    by simp
  have "(2 ^ (bitlength n - 1) :: rat) \<le> of_nat n"
    using lo by (metis of_nat_le_iff of_nat_numeral of_nat_power)
  from this n(2) have "2 ^ (bitlength n - 1) < 1 / x"
    by (rule le_less_trans)
  then have "x < 1 / 2 ^ (bitlength n - 1)"
    using assms by (simp add: field_simps)
  moreover have "floor_log2 x + 1 = - int (bitlength n - 1)"
    using e b by simp
  then have "pow2 (floor_log2 x + 1) = 1 / 2 ^ (bitlength n - 1)"
    by (simp only: pow2_neg_nat)
  ultimately show ?thesis
    using low by simp
qed

lemma round_half_even_near: "\<bar>of_int (round_half_even t) - t\<bar> \<le> 1 / 2"
proof -
  have "of_int \<lfloor>t\<rfloor> \<le> t" "t < of_int \<lfloor>t\<rfloor> + 1"
    by linarith+
  then show ?thesis
    by (auto simp: round_half_even_def Let_def)
qed

lemma round_half_even_minimal:
  "\<bar>of_int (round_half_even t) - t\<bar> \<le> \<bar>of_int j - t\<bar>"
proof (rule ccontr)
  assume "\<not> ?thesis"
  then have less: "\<bar>of_int j - t\<bar> < \<bar>of_int (round_half_even t) - t\<bar>"
    by simp
  with round_half_even_near [of t] have "\<bar>of_int j - t\<bar> < 1 / 2"
    by simp
  with round_half_even_near [of t]
  have "\<bar>(of_int j :: rat) - of_int (round_half_even t)\<bar> < 1"
    by linarith
  then have "\<bar>j - round_half_even t\<bar> < 1"
    by (metis of_int_1 of_int_abs of_int_diff of_int_less_iff)
  then have "j = round_half_even t"
    by simp
  with less show False
    by simp
qed

lemma round_half_even_lower: "of_int a \<le> t \<Longrightarrow> a \<le> round_half_even t"
proof -
  assume "of_int a \<le> t"
  then have "a \<le> \<lfloor>t\<rfloor>"
    by (simp add: le_floor_iff)
  then show ?thesis
    by (simp add: round_half_even_def Let_def)
qed

lemma round_half_even_upper: "t \<le> of_int b \<Longrightarrow> round_half_even t \<le> b"
proof -
  assume le: "t \<le> of_int b"
  show ?thesis
  proof (cases "t = of_int b")
    case True
    then show ?thesis
      by (simp add: round_half_even_def Let_def)
  next
    case False
    with le have "t < of_int b"
      by simp
    then have "\<lfloor>t\<rfloor> < b"
      by (simp add: floor_less_iff)
    then show ?thesis
      by (simp add: round_half_even_def Let_def)
  qed
qed

lemma round_half_even_tie: "t = of_int k + 1 / 2 \<Longrightarrow> even (round_half_even t)"
proof -
  assume t: "t = of_int k + 1 / 2"
  then have "\<lfloor>t\<rfloor> = k"
    by (simp add: floor_unique)
  with t show ?thesis
    by (simp add: round_half_even_def Let_def)
qed

lemma pow2_0 [simp]: "pow2 0 = 1"
  by (simp add: pow2_def)

lemma pow2_numeral: "pow2 (numeral k) = 2 ^ numeral k"
  by (simp add: pow2_def)

lemma of_int_pow2_nat: "of_int (2 ^ n) = pow2 (int n)"
  by (simp add: pow2_nat)

lemma round_to_double_parts:
  assumes "0 < x"
  defines "q \<equiv> max (floor_log2 x) (- 1022) - 52"
  defines "m \<equiv> round_half_even (x / pow2 q)"
  shows "round_to_double s x =
           (if pow2 1024 \<le> of_int m * pow2 q then Infinity s else Finite s (of_int m * pow2 q))"
    and "0 \<le> m"
    and "- 1022 \<le> floor_log2 x \<Longrightarrow> 2 ^ 52 \<le> m \<and> m \<le> 2 ^ 53"
    and "floor_log2 x < - 1022 \<Longrightarrow> m \<le> 2 ^ 52"
proof -
  have p: "0 < pow2 q"
    by (rule pow2_pos)
  show "round_to_double s x =
      (if pow2 1024 \<le> of_int m * pow2 q then Infinity s else Finite s (of_int m * pow2 q))"
    using assms(1) by (simp add: round_to_double_def ulp_exponent_def Let_def q_def m_def pow2_numeral)
  have "0 \<le> x / pow2 q"
    using assms(1) p by simp
  then show "0 \<le> m"
    unfolding m_def by (rule round_half_even_nonneg)
  from floor_log2_bounds [OF assms(1)]
  have lo: "pow2 (floor_log2 x) \<le> x" and hi: "x < pow2 (floor_log2 x + 1)"
    by simp_all
  {
    assume n: "- 1022 \<le> floor_log2 x"
    then have q: "floor_log2 x = q + 52"
      by (simp add: q_def)
    have "pow2 52 * pow2 q \<le> x"
      using lo by (simp add: q pow2_add mult.commute)
    then have "pow2 52 \<le> x / pow2 q"
      using p by (simp add: field_simps)
    then have "of_int (2 ^ 52) \<le> x / pow2 q"
      by (simp add: pow2_numeral)
    then have l: "2 ^ 52 \<le> m"
      unfolding m_def by (rule round_half_even_lower)
    have "floor_log2 x + 1 = 53 + q"
      using q by simp
    then have "x < pow2 53 * pow2 q"
      using hi by (simp add: pow2_add)
    then have "x / pow2 q \<le> pow2 53"
      using p by (simp add: field_simps)
    then have "x / pow2 q \<le> of_int (2 ^ 53)"
      by (simp add: pow2_numeral)
    then have "m \<le> 2 ^ 53"
      unfolding m_def by (rule round_half_even_upper)
    with l show "2 ^ 52 \<le> m \<and> m \<le> 2 ^ 53"
      by simp
  }
  {
    assume s: "floor_log2 x < - 1022"
    then have q: "q = - 1074"
      by (simp add: q_def)
    from s have "floor_log2 x + 1 \<le> - 1022"
      by simp
    then have "pow2 (floor_log2 x + 1) \<le> pow2 (- 1022)"
      by (simp only: pow2_le_iff)
    with hi have "x < pow2 (- 1022)"
      by simp
    also have "pow2 (- 1022) = pow2 52 * pow2 q"
      unfolding q by (simp flip: pow2_add)
    finally have "x / pow2 q \<le> pow2 52"
      using p by (simp add: field_simps)
    then have "x / pow2 q \<le> of_int (2 ^ 52)"
      by (simp add: pow2_numeral)
    then show "m \<le> 2 ^ 52"
      unfolding m_def by (rule round_half_even_upper)
  }
qed

lemma pow2_1 [simp]: "pow2 1 = 2"
  by (simp add: pow2_def)

lemma abs_scaled:
  fixes a c x :: rat
  assumes "0 < c"
  shows "\<bar>a * c - x\<bar> = \<bar>a - x / c\<bar> * c"
proof -
  have "a * c - x = (a - x / c) * c"
    using assms by (simp add: field_simps)
  then have "\<bar>a * c - x\<bar> = \<bar>a - x / c\<bar> * \<bar>c\<bar>"
    by (simp only: abs_mult)
  with assms show ?thesis
    by simp
qed

lemma binary64_magnitudeI:
  "y = of_nat m * pow2 e \<Longrightarrow> m < 2 ^ 53 \<Longrightarrow> - 1074 \<le> e \<Longrightarrow> e \<le> 971
     \<Longrightarrow> binary64_magnitude y"
  unfolding binary64_magnitude_def by blast

lemma round_to_double_nearest:
  assumes "0 \<le> x" and "round_to_double s x = Finite s' y"
  shows "s' = s \<and> binary64_magnitude y
       \<and> (\<forall>z. binary64_magnitude z \<longrightarrow> \<bar>y - x\<bar> \<le> \<bar>z - x\<bar>)"
proof (cases "x = 0")
  case True
  with assms(2) have "s' = s" "y = 0"
    by (simp_all add: round_to_double_def)
  moreover have "binary64_magnitude 0"
    by (rule binary64_magnitudeI [of _ 0 0]) simp_all
  ultimately show ?thesis
    using True by simp
next
  case False
  with assms(1) have pos: "0 < x"
    by simp
  define e where "e = floor_log2 x"
  define q where "q = max (floor_log2 x) (- 1022) - 52"
  define m where "m = round_half_even (x / pow2 q)"
  note parts = round_to_double_parts [OF pos, folded q_def m_def]
  have p: "0 < pow2 q"
    by (rule pow2_pos)
  from parts(1) assms(2)
  have fin: "of_int m * pow2 q < pow2 1024" and s: "s' = s" and y: "y = of_int m * pow2 q"
    by (simp_all split: if_splits)
  have m0: "0 \<le> m"
    by (rule parts(2))
  have x: "x = (x / pow2 q) * pow2 q"
    using p by simp
  from floor_log2_bounds [OF pos]
  have lo: "pow2 e \<le> x"
    by (simp add: e_def)
  have representable: "binary64_magnitude y"
  proof (cases "- 1022 \<le> e")
    case True
    then have q52: "e = q + 52" and qlow: "- 1074 \<le> q"
      by (simp_all add: q_def e_def)
    from parts(3) True have m: "2 ^ 52 \<le> m" "m \<le> 2 ^ 53"
      by (simp_all add: e_def)
    have "pow2 52 * pow2 q \<le> of_int m * pow2 q"
      using m(1) p by (simp add: pow2_numeral)
    with fin have "pow2 (52 + q) < pow2 1024"
      by (simp add: pow2_add)
    then have qhigh: "q \<le> 971"
      by (simp add: pow2_less_iff)
    show ?thesis
    proof (cases "m = 2 ^ 53")
      case True
      then have "y = pow2 53 * pow2 q"
        by (simp add: y pow2_numeral)
      then have y': "y = pow2 (53 + q)"
        by (simp add: pow2_add)
      from fin have "pow2 (53 + q) < pow2 1024"
        unfolding y [symmetric] y' .
      then have "53 + q < 1024"
        by (simp only: pow2_less_iff)
      moreover have "y = of_nat (2 ^ 52) * pow2 (q + 1)"
        unfolding y' by (simp add: pow2_add pow2_numeral)
      ultimately show ?thesis
        using qlow by (intro binary64_magnitudeI [of y "2 ^ 52" "q + 1"]) simp_all
    next
      case False
      with m(2) have "m < 2 ^ 53"
        by simp
      then have "nat m < 2 ^ 53"
        using m0 by (simp add: nat_less_iff)
      moreover have "y = of_nat (nat m) * pow2 q"
        using m0 by (simp add: y)
      ultimately show ?thesis
        using qlow qhigh by (intro binary64_magnitudeI [of y "nat m" q]) simp_all
    qed
  next
    case False
    then have q: "q = - 1074"
      by (simp add: q_def e_def)
    from parts(4) False have "m \<le> 2 ^ 52"
      by (simp add: e_def)
    then have "nat m < 2 ^ 53"
      using m0 by (simp add: nat_less_iff)
    moreover have "y = of_nat (nat m) * pow2 q"
      using m0 by (simp add: y)
    ultimately show ?thesis
      unfolding q by (intro binary64_magnitudeI [of y "nat m" "- 1074"]) simp_all
  qed
  have multiple: "\<bar>y - x\<bar> \<le> \<bar>of_int j * pow2 q - x\<bar>" for j
  proof -
    have "\<bar>y - x\<bar> = \<bar>of_int m - x / pow2 q\<bar> * pow2 q"
      unfolding y by (rule abs_scaled [OF p])
    also have "\<dots> \<le> \<bar>of_int j - x / pow2 q\<bar> * pow2 q"
      using p round_half_even_minimal [of "x / pow2 q" j]
      by (simp add: m_def)
    also have "\<dots> = \<bar>of_int j * pow2 q - x\<bar>"
      by (rule abs_scaled [OF p, symmetric])
    finally show ?thesis .
  qed
  have nearest: "\<bar>y - x\<bar> \<le> \<bar>z - x\<bar>" if "binary64_magnitude z" for z
  proof -
    from that obtain k e' where z: "z = of_nat k * pow2 e'"
      and k: "k < 2 ^ 53" and e': "- 1074 \<le> e'" "e' \<le> 971"
      unfolding binary64_magnitude_def by blast
    show ?thesis
    proof (cases "q \<le> e'")
      case True
      then have "e' = int (nat (e' - q)) + q"
        by simp
      then have "pow2 e' = 2 ^ nat (e' - q) * pow2 q"
        by (metis pow2_add pow2_nat)
      then have "z = of_int (int k * 2 ^ nat (e' - q)) * pow2 q"
        by (simp add: z)
      then show ?thesis
        by (simp only: multiple)
    next
      case False
      then have "- 1074 < q"
        using e'(1) by simp
      then have q52: "e = q + 52"
        by (simp add: q_def e_def max_def split: if_splits)
      have "of_nat k \<le> (pow2 53 :: rat)"
      proof -
        from k have "(of_nat k :: rat) < of_nat (2 ^ 53)"
          by (simp only: of_nat_less_iff)
        then show ?thesis
          by (simp add: pow2_numeral)
      qed
      moreover have "pow2 e' \<le> pow2 (q - 1)"
        using False by (simp add: pow2_le_iff)
      ultimately have "of_nat k * pow2 e' \<le> pow2 53 * pow2 (q - 1)"
        by (intro mult_mono) (simp_all add: pow2_pos less_imp_le)
      also have "\<dots> = pow2 (53 + (q - 1))"
        by (rule pow2_add [symmetric])
      also have "53 + (q - 1) = e"
        using q52 by simp
      finally have zle: "z \<le> pow2 e"
        by (simp add: z)
      have "e = 52 + q"
        using q52 by simp
      then have "pow2 e = of_int (2 ^ 52) * pow2 q"
        by (simp add: pow2_add pow2_numeral)
      with multiple [of "2 ^ 52"] have "\<bar>y - x\<bar> \<le> \<bar>pow2 e - x\<bar>"
        by simp
      also have "\<dots> \<le> \<bar>z - x\<bar>"
        using zle lo by simp
      finally show ?thesis .
    qed
  qed
  from s representable nearest show ?thesis
    by blast
qed

lemma below_predecessor:
  fixes k n :: int
  shows "k < n \<Longrightarrow> k \<noteq> n - 1 \<Longrightarrow> k + 1 \<le> n - 1"
  by simp

lemma round_to_double_overflow:
  assumes "0 \<le> x"
  shows "round_to_double s x = Infinity s \<longleftrightarrow> 2 ^ 1024 - 2 ^ 970 \<le> x"
proof (cases "x = 0")
  case True
  then show ?thesis
    by (simp add: round_to_double_def)
next
  case False
  with assms have pos: "0 < x"
    by simp
  define e where "e = floor_log2 x"
  define q where "q = max (floor_log2 x) (- 1022) - 52"
  define t where "t = x / pow2 q"
  define m where "m = round_half_even t"
  note parts = round_to_double_parts [OF pos, folded q_def, folded t_def, folded m_def]
  have p: "0 < pow2 q"
    by (rule pow2_pos)
  have inf: "round_to_double s x = Infinity s \<longleftrightarrow> pow2 1024 \<le> of_int m * pow2 q"
    by (simp add: parts(1))
  have threshold: "(2 ^ 1024 - 2 ^ 970 :: rat) = (pow2 53 - 1 / 2) * pow2 971"
  proof -
    have "(pow2 53 - 1 / 2) * pow2 971 = pow2 53 * pow2 971 - pow2 (- 1) * pow2 971"
      by (simp add: left_diff_distrib pow2_def)
    also have "\<dots> = pow2 1024 - pow2 970"
      by (simp flip: pow2_add)
    finally show ?thesis
      by (simp add: pow2_numeral)
  qed
  from floor_log2_bounds [OF pos]
  have lo: "pow2 e \<le> x" and hi: "x < pow2 (e + 1)"
    by (simp_all add: e_def)
  have m_upper: "m \<le> 2 ^ 53"
    using parts(3) parts(4) by (cases "- 1022 \<le> floor_log2 x") auto
  show ?thesis
  proof
    assume "2 ^ 1024 - 2 ^ 970 \<le> x"
    then have big: "(pow2 53 - 1 / 2) * pow2 971 \<le> x"
      by (simp only: threshold)
    have "pow2 1023 \<le> (pow2 53 - 1 / 2) * pow2 971"
    proof -
      have "pow2 1023 = pow2 52 * pow2 971"
        by (simp flip: pow2_add)
      also have "\<dots> \<le> (pow2 53 - 1 / 2) * pow2 971"
        by (intro mult_right_mono) (simp_all add: pow2_numeral pow2_pos less_imp_le)
      finally show ?thesis .
    qed
    with big hi have "pow2 1023 < pow2 (e + 1)"
      by simp
    then have e: "1023 \<le> e"
      by (simp add: pow2_less_iff)
    then have q: "e = q + 52"
      by (simp add: q_def e_def)
    from e parts(3) have m: "2 ^ 52 \<le> m"
      by (simp add: e_def)
    have "pow2 1024 \<le> of_int m * pow2 q"
    proof (cases "1024 \<le> e")
      case True
      then have "pow2 1024 \<le> pow2 e"
        by (simp only: pow2_le_iff)
      also have "e = 52 + q"
        using q by simp
      also have "pow2 (52 + q) = of_int (2 ^ 52) * pow2 q"
        by (simp add: pow2_add pow2_numeral)
      also have "\<dots> \<le> of_int m * pow2 q"
        using m p by (intro mult_right_mono) (simp_all add: less_imp_le)
      finally show ?thesis .
    next
      case False
      with e q have q971: "q = 971"
        by simp
      from big have tbig: "pow2 53 - 1 / 2 \<le> t"
        using pow2_pos [of 971] by (simp add: t_def q971 field_simps)
      have "2 ^ 53 \<le> m"
      proof (cases "pow2 53 \<le> t")
        case True
        then have "of_int (2 ^ 53) \<le> t"
          by (simp add: pow2_numeral)
        then show ?thesis
          unfolding m_def by (rule round_half_even_lower)
      next
        case False
        with tbig have fl: "\<lfloor>t\<rfloor> = 2 ^ 53 - 1"
          by (intro floor_unique) (simp_all add: pow2_numeral)
        then have "odd \<lfloor>t\<rfloor>"
          by simp
        moreover from tbig fl have "1 / 2 \<le> t - of_int \<lfloor>t\<rfloor>"
          by (simp add: pow2_numeral)
        ultimately have "m = \<lfloor>t\<rfloor> + 1"
          by (auto simp: m_def round_half_even_def Let_def)
        with fl show ?thesis
          by simp
      qed
      then have "of_int (2 ^ 53) * pow2 q \<le> of_int m * pow2 q"
        using p by (intro mult_right_mono) (simp_all add: less_imp_le)
      moreover have "of_int (2 ^ 53) * pow2 q = pow2 1024"
        unfolding q971 by (simp add: pow2_numeral)
      ultimately show ?thesis
        by simp
    qed
    then show "round_to_double s x = Infinity s"
      by (simp only: inf)
  next
    assume "round_to_double s x = Infinity s"
    then have over: "pow2 1024 \<le> of_int m * pow2 q"
      by (simp only: inf)
    show "2 ^ 1024 - 2 ^ 970 \<le> x"
    proof (rule ccontr)
      assume "\<not> 2 ^ 1024 - 2 ^ 970 \<le> x"
      then have small: "x < (pow2 53 - 1 / 2) * pow2 971"
        by (simp only: threshold not_le)
      also have "\<dots> \<le> pow2 53 * pow2 971"
        by (intro mult_right_mono) (simp_all add: pow2_pos less_imp_le)
      also have "\<dots> = pow2 1024"
        by (simp flip: pow2_add)
      finally have "pow2 e < pow2 1024"
        using lo by simp
      then have e: "e \<le> 1023"
        by (simp add: pow2_less_iff)
      then have qle: "q \<le> 971"
        by (simp add: q_def e_def)
      have "of_int m * pow2 q < pow2 1024"
      proof (cases "q = 971")
        case True
        from small have tsmall: "t < pow2 53 - 1 / 2"
          using pow2_pos [of 971] by (simp add: t_def True field_simps)
        have "m \<le> 2 ^ 53 - 1"
        proof (cases "\<lfloor>t\<rfloor> = 2 ^ 53 - 1")
          case True
          with tsmall have "t - of_int \<lfloor>t\<rfloor> < 1 / 2"
            by (simp add: pow2_numeral)
          then have "m = \<lfloor>t\<rfloor>"
            by (simp add: m_def round_half_even_def Let_def)
          with True show ?thesis
            by simp
        next
          case False
          from tsmall have "t < of_int (2 ^ 53)"
            by (simp add: pow2_numeral)
          then have "\<lfloor>t\<rfloor> < 2 ^ 53"
            by (simp only: floor_less_iff)
          from this False have "\<lfloor>t\<rfloor> + 1 \<le> 2 ^ 53 - 1"
            by (rule below_predecessor)
          moreover have "m \<le> \<lfloor>t\<rfloor> + 1"
            by (simp add: m_def round_half_even_def Let_def)
          ultimately show ?thesis
            by (rule order_trans [rotated])
        qed
        then have "(of_int m :: rat) \<le> of_int (2 ^ 53 - 1)"
          by (simp only: of_int_le_iff)
        then have "of_int m * pow2 q \<le> of_int (2 ^ 53 - 1) * pow2 q"
          using p by (intro mult_right_mono) (simp_all add: less_imp_le)
        also have "\<dots> < pow2 53 * pow2 q"
          using p by (intro mult_strict_right_mono) (simp_all add: pow2_numeral)
        also have "\<dots> = pow2 1024"
          unfolding True by (simp flip: pow2_add)
        finally show ?thesis .
      next
        case False
        with qle have "q \<le> 970"
          by simp
        then have "pow2 q \<le> pow2 970"
          by (simp only: pow2_le_iff)
        moreover have "(of_int m :: rat) \<le> pow2 53"
        proof -
          from m_upper have "(of_int m :: rat) \<le> of_int (2 ^ 53)"
            by (simp only: of_int_le_iff)
          then show ?thesis
            by (simp add: pow2_numeral)
        qed
        ultimately have "of_int m * pow2 q \<le> pow2 53 * pow2 970"
          using parts(2) by (intro mult_mono) (simp_all add: pow2_pos less_imp_le)
        also have "\<dots> = pow2 1023"
          by (simp flip: pow2_add)
        also have "\<dots> < pow2 1024"
          by (simp add: pow2_less_iff)
        finally show ?thesis .
      qed
      with over show False
        by simp
    qed
  qed
qed

lemma round_to_double_ties_to_even:
  assumes "0 < x" and "round_to_double s x = Finite s y"
    and "binary64_magnitude z" and "z \<noteq> y" and "\<bar>z - x\<bar> = \<bar>y - x\<bar>"
  shows "\<exists>m. even m \<and> y = of_int m * pow2 (ulp_exponent x)"
proof -
  define e where "e = floor_log2 x"
  define q where "q = max (floor_log2 x) (- 1022) - 52"
  define t where "t = x / pow2 q"
  define m where "m = round_half_even t"
  note parts = round_to_double_parts [OF assms(1), folded q_def, folded t_def, folded m_def]
  have p: "0 < pow2 q"
    by (rule pow2_pos)
  from parts(1) assms(2) have y: "y = of_int m * pow2 q"
    by (simp split: if_splits)
  from floor_log2_bounds [OF assms(1)] have lo: "pow2 e \<le> x"
    by (simp add: e_def)
  have multiple: "\<bar>y - x\<bar> \<le> \<bar>of_int j * pow2 q - x\<bar>" for j
  proof -
    have "\<bar>y - x\<bar> = \<bar>of_int m - t\<bar> * pow2 q"
      unfolding y t_def by (rule abs_scaled [OF p])
    also have "\<dots> \<le> \<bar>of_int j - t\<bar> * pow2 q"
      using p round_half_even_minimal [of t j] by (simp add: m_def)
    also have "\<dots> = \<bar>of_int j * pow2 q - x\<bar>"
      unfolding t_def by (rule abs_scaled [OF p, symmetric])
    finally show ?thesis .
  qed
  from assms(3) obtain k e' where z: "z = of_nat k * pow2 e'"
    and k: "k < 2 ^ 53" and e': "- 1074 \<le> e'" "e' \<le> 971"
    unfolding binary64_magnitude_def by blast
  have "\<exists>j. z = of_int j * pow2 q"
  proof (cases "q \<le> e'")
    case True
    then have "e' = int (nat (e' - q)) + q"
      by simp
    then have "pow2 e' = 2 ^ nat (e' - q) * pow2 q"
      by (metis pow2_add pow2_nat)
    then have "z = of_int (int k * 2 ^ nat (e' - q)) * pow2 q"
      by (simp add: z)
    then show ?thesis ..
  next
    case False
    then have "- 1074 < q"
      using e'(1) by simp
    then have q52: "e = q + 52"
      by (simp add: q_def e_def max_def split: if_splits)
    have "of_nat k \<le> (pow2 53 :: rat)"
    proof -
      from k have "(of_nat k :: rat) < of_nat (2 ^ 53)"
        by (simp only: of_nat_less_iff)
      then show ?thesis
        by (simp add: pow2_numeral)
    qed
    moreover have "pow2 e' \<le> pow2 (q - 1)"
      using False by (simp add: pow2_le_iff)
    ultimately have "of_nat k * pow2 e' \<le> pow2 53 * pow2 (q - 1)"
      by (intro mult_mono) (simp_all add: pow2_pos less_imp_le)
    also have "\<dots> = pow2 (53 + (q - 1))"
      by (rule pow2_add [symmetric])
    also have "53 + (q - 1) = e"
      using q52 by simp
    finally have zle: "z \<le> pow2 e"
      by (simp add: z)
    have "e = 52 + q"
      using q52 by simp
    then have pe: "pow2 e = of_int (2 ^ 52) * pow2 q"
      by (simp add: pow2_add pow2_numeral)
    with multiple [of "2 ^ 52"] have "\<bar>y - x\<bar> \<le> \<bar>pow2 e - x\<bar>"
      by simp
    with assms(5) have "\<bar>z - x\<bar> \<le> \<bar>pow2 e - x\<bar>"
      by simp
    with zle lo have "z = pow2 e"
      by simp
    with pe show ?thesis
      by blast
  qed
  then obtain j where j: "z = of_int j * pow2 q" ..
  with assms(4) y have "j \<noteq> m"
    by auto
  have "\<bar>of_int j - t\<bar> * pow2 q = \<bar>of_int m - t\<bar> * pow2 q"
    using assms(5) unfolding j y t_def by (simp only: abs_scaled [OF p])
  with p have eq: "\<bar>of_int j - t\<bar> = \<bar>of_int m - t\<bar>"
    by simp
  have near: "\<bar>of_int m - t\<bar> \<le> 1 / 2"
    unfolding m_def by (rule round_half_even_near)
  have "1 \<le> \<bar>j - m\<bar>"
    using \<open>j \<noteq> m\<close> by simp
  then have "(1 :: rat) \<le> \<bar>of_int j - of_int m\<bar>"
    by (metis of_int_1 of_int_abs of_int_diff of_int_le_iff)
  with eq near have "\<bar>of_int m - t\<bar> = 1 / 2"
    by linarith
  then have "t = of_int m + 1 / 2 \<or> t = of_int (m - 1) + 1 / 2"
    by (auto simp: abs_if split: if_splits)
  then have "even m"
    unfolding m_def using round_half_even_tie by blast
  with y show ?thesis
    unfolding q_def ulp_exponent_def by blast
qed


section \<open>More on the conversion to lamports\<close>

lemma parseFloat_4194304_9:
  "parseFloat (js ''4194304.9'') = Finite False (2251800296869069 / 536870912)"
  by (simp add: number_eval)

lemma product_4194304_9:
  "number_times (parseFloat (js ''4194304.9'')) (Finite False 1000000000)
     = Finite False (8388609800000001 / 2)"
  unfolding parseFloat_4194304_9
  by (simp add: round_to_double_def ulp_exponent_def floor_log2_def pow2_def round_half_even_def
      Let_def)

lemma lamports_of_4194304_9: "lamports_of (js ''4194304.9'') = Finite False 4194304900000001"
  unfolding lamports_of_def product_4194304_9 by simp

lemma parseFloat_Infinity: "parseFloat (js ''Infinity'') = Infinity False"
  by (simp add: number_eval)

lemma parseFloat_2_64: "parseFloat (js ''18446744074'') = Finite False 18446744074"
  by (simp add: number_eval)

lemma lamports_of_2_64: "lamports_of (js ''18446744074'') = Finite False 18446744073999998976"
  unfolding lamports_of_def parseFloat_2_64
  by (simp add: round_to_double_def ulp_exponent_def floor_log2_def pow2_def round_half_even_def
      Let_def)

lemma parseFloat_exponents:
  "parseFloat (js ''1e-2'') = parseFloat (js ''0.01'')"
  "parseFloat (js ''1E+1'') = Finite False 10"
  unfolding parseFloat_0_01 by (simp_all add: number_eval)

lemma lamports_of_exponents:
  "lamports_of (js ''1e-2'') = Finite False 10000000"
  "lamports_of (js ''1E+1'') = Finite False 10000000000"
proof -
  show "lamports_of (js ''1e-2'') = Finite False 10000000"
    using lamports_of_0_01 by (simp add: lamports_of_def parseFloat_exponents)
  show "lamports_of (js ''1E+1'') = Finite False 10000000000"
    unfolding lamports_of_def parseFloat_exponents
    by (simp add: round_to_double_def ulp_exponent_def floor_log2_def pow2_def
        round_half_even_def Let_def)
qed

lemma lamports_of_spaced: "lamports_of (js ''  +12.5e-3 SOL'') = Finite False 12500000"
  unfolding lamports_of_def parseFloat_samples
  by (simp add: round_to_double_def ulp_exponent_def floor_log2_def pow2_def round_half_even_def
      Let_def)

text \<open>An amount whose product with \<open>10\<^sup>9\<close> lies halfway between two binary64 values.\<close>

lemma parseFloat_tie: "parseFloat (js ''4611686019'') = Finite False 4611686019"
  by (simp add: number_eval)

lemma product_tie:
  "number_times (parseFloat (js ''4611686019'')) (Finite False 1000000000)
     = Finite False 4611686019000000512"
  unfolding parseFloat_tie
  by (simp add: round_to_double_def ulp_exponent_def floor_log2_def pow2_def round_half_even_def
      Let_def)

lemma ulp_exponent_tie: "ulp_exponent (4611686019 * 10 ^ 9) = 10"
  by (simp add: ulp_exponent_def floor_log2_def)

lemma binary64_tie: "binary64_magnitude 4611686018999999488"
  by (rule binary64_magnitudeI [of _ 4503599627929687 10]) (simp_all add: pow2_def)

text \<open>The product of a valid amount with \<open>10\<^sup>9\<close>, in full.\<close>

lemma product_of_valid_cases:
  assumes "fst (validateAmount a)"
  obtains (infinite) "parseFloat a = Infinity False"
      "number_times (parseFloat a) (Finite False 1000000000) = Infinity False"
    | (overflow) p where "0 < p" "parseFloat a = Finite False p"
      "2 ^ 1024 - 2 ^ 970 \<le> p * 10 ^ 9"
      "number_times (parseFloat a) (Finite False 1000000000) = Infinity False"
    | (finite) p x where "0 < p" "parseFloat a = Finite False p"
      "p * 10 ^ 9 < 2 ^ 1024 - 2 ^ 970" "0 \<le> x"
      "number_times (parseFloat a) (Finite False 1000000000) = Finite False x"
      "round_to_double False (p * 10 ^ 9) = Finite False x"
proof -
  from assms consider "parseFloat a = Infinity False"
    | p where "0 < p" "parseFloat a = Finite False p"
    by (auto simp: validateAmount_ok_iff)
  then show ?thesis
  proof cases
    case 1
    then show ?thesis
      using infinite by simp
  next
    case 2
    then have nonneg: "0 \<le> p * 10 ^ 9"
      by simp
    have product: "number_times (parseFloat a) (Finite False 1000000000)
        = round_to_double False (p * 10 ^ 9)"
      using 2 by simp
    show ?thesis
    proof (cases "2 ^ 1024 - 2 ^ 970 \<le> p * 10 ^ 9")
      case True
      then have "round_to_double False (p * 10 ^ 9) = Infinity False"
        by (simp only: round_to_double_overflow [OF nonneg])
      with 2 True product show ?thesis
        using overflow by simp
    next
      case False
      then have "round_to_double False (p * 10 ^ 9) \<noteq> Infinity False"
        by (simp only: round_to_double_overflow [OF nonneg]) simp
      with round_to_double_nonneg [OF nonneg, of False]
      obtain x where "0 \<le> x" "round_to_double False (p * 10 ^ 9) = Finite False x"
        by blast
      with 2 False product show ?thesis
        using finite [of p x] by simp
    qed
  qed
qed

lemma binary64_integral:
  assumes "binary64_magnitude x" and "2 ^ 53 \<le> x"
  shows "x = of_int \<lfloor>x\<rfloor>"
proof -
  from assms(1) obtain m e where x: "x = of_nat m * pow2 e" and m: "m < 2 ^ 53"
    unfolding binary64_magnitude_def by blast
  have "0 < e"
  proof (rule ccontr)
    assume "\<not> 0 < e"
    then have "pow2 e \<le> pow2 0"
      unfolding pow2_le_iff by simp
    then have "of_nat m * pow2 e \<le> of_nat m * 1"
      by (intro mult_left_mono) simp_all
    moreover from m have "(of_nat m :: rat) < of_nat (2 ^ 53)"
      by (simp only: of_nat_less_iff)
    ultimately have "x < 2 ^ 53"
      by (simp add: x)
    with assms(2) show False
      by simp
  qed
  then have "e = int (nat e)"
    by simp
  then have "pow2 e = 2 ^ nat e"
    by (metis pow2_nat)
  then have "x = of_int (int m * 2 ^ nat e)"
    by (simp add: x)
  then show ?thesis
    by (metis floor_of_int)
qed

lemma round_below_2_64:
  assumes "0 \<le> x" and "binary64_magnitude x"
  shows "round x < 2 ^ 64 \<longleftrightarrow> x < 2 ^ 64"
proof (cases "x < 2 ^ 53")
  case True
  then have "x + 1 / 2 < of_int (2 ^ 53 + 1)"
    by simp
  then have "round x < 2 ^ 53 + 1"
    unfolding round_def by (simp only: floor_less_iff)
  with True show ?thesis
    by simp
next
  case False
  then have "x = of_int \<lfloor>x\<rfloor>"
    using assms(2) by (intro binary64_integral) simp_all
  then obtain k where k: "x = of_int k" ..
  have "round x = k"
    unfolding k by (rule round_of_int)
  moreover have "x < 2 ^ 64 \<longleftrightarrow> k < 2 ^ 64"
    unfolding k by (metis of_int_less_iff of_int_numeral of_int_power)
  ultimately show ?thesis
    by simp
qed

text \<open>Where the rounded product reaches \<open>2\<^sup>6\<^sup>4\<close>.\<close>

lemma round_half_even_below:
  assumes "t < of_int k + 1 / 2"
  shows "round_half_even t \<le> k"
proof -
  from round_half_even_near [of t] have "of_int (round_half_even t) \<le> t + 1 / 2"
    by linarith
  with assms have "(of_int (round_half_even t) :: rat) < of_int (k + 1)"
    by simp
  then have "round_half_even t < k + 1"
    by (simp only: of_int_less_iff)
  then show ?thesis
    by simp
qed

lemma round_half_even_above:
  assumes "of_int k - 1 / 2 \<le> t" and "even k"
  shows "k \<le> round_half_even t"
proof (cases "t = of_int (k - 1) + 1 / 2")
  case True
  then have e: "even (round_half_even t)"
    by (rule round_half_even_tie)
  from round_half_even_near [of t] have "t - 1 / 2 \<le> of_int (round_half_even t)"
    by linarith
  with True have "(of_int (k - 1) :: rat) \<le> of_int (round_half_even t)"
    by simp
  then have "k - 1 \<le> round_half_even t"
    by (simp only: of_int_le_iff)
  moreover from assms(2) e have "round_half_even t \<noteq> k - 1"
    by auto
  ultimately show ?thesis
    by simp
next
  case False
  with assms(1) have "of_int k - 1 / 2 < t"
    by simp
  moreover from round_half_even_near [of t] have "t - 1 / 2 \<le> of_int (round_half_even t)"
    by linarith
  ultimately have "(of_int (k - 1) :: rat) < of_int (round_half_even t)"
    by simp
  then have "k - 1 < round_half_even t"
    by (simp only: of_int_less_iff)
  then show ?thesis
    by simp
qed

lemma round_to_double_below_2_64:
  assumes "0 < y" and "round_to_double s y = Finite s x"
  shows "x < 2 ^ 64 \<longleftrightarrow> y < 2 ^ 64 - 2 ^ 10"
proof -
  define e where "e = floor_log2 y"
  define q where "q = max (floor_log2 y) (- 1022) - 52"
  define m where "m = round_half_even (y / pow2 q)"
  have p: "0 < pow2 q"
    by (rule pow2_pos)
  from round_to_double_parts(1) [OF assms(1), of s] assms(2)
  have x: "x = of_int m * pow2 q"
    unfolding q_def m_def by (simp split: if_splits)
  have m0: "0 \<le> m"
    unfolding m_def q_def by (rule round_to_double_parts(2) [OF assms(1)])
  have m53: "m \<le> 2 ^ 53"
  proof (cases "- 1022 \<le> floor_log2 y")
    case True
    from round_to_double_parts(3) [OF assms(1) True] show ?thesis
      unfolding m_def q_def by simp
  next
    case False
    then have "floor_log2 y < - 1022"
      by simp
    from round_to_double_parts(4) [OF assms(1) this] show ?thesis
      unfolding m_def q_def by simp
  qed
  from floor_log2_bounds [OF assms(1)]
  have lo: "pow2 e \<le> y" and hi: "y < pow2 (e + 1)"
    unfolding e_def by simp_all
  consider (small) "y < 2 ^ 63" | (binade) "2 ^ 63 \<le> y" "y < 2 ^ 64" | (large) "2 ^ 64 \<le> y"
    by linarith
  then show ?thesis
  proof cases
    case small
    with lo have "pow2 e < pow2 63"
      by (simp add: pow2_numeral)
    then have "e < 63"
      by (simp only: pow2_less_iff)
    then have "q \<le> 10"
      unfolding q_def e_def by simp
    then have "pow2 q \<le> pow2 10"
      by (simp only: pow2_le_iff)
    then have "of_int m * pow2 q \<le> of_int m * pow2 10"
      using m0 by (intro mult_left_mono) simp_all
    also have "\<dots> \<le> of_int (2 ^ 53) * pow2 10"
      using m53 by (intro mult_right_mono) (simp_all only: of_int_le_iff pow2_numeral, simp)
    finally have "x < 2 ^ 64"
      by (simp add: x pow2_numeral)
    moreover from small have "y < 2 ^ 64 - 2 ^ 10"
      by simp
    ultimately show ?thesis
      by simp
  next
    case binade
    from binade(1) hi have "pow2 63 < pow2 (e + 1)"
      by (simp add: pow2_numeral)
    then have "63 < e + 1"
      by (simp only: pow2_less_iff)
    moreover from binade(2) lo have "pow2 e < pow2 64"
      by (simp add: pow2_numeral)
    then have "e < 64"
      by (simp only: pow2_less_iff)
    ultimately have "e = 63"
      by simp
    then have q: "q = 11"
      unfolding q_def e_def by simp
    have x': "x = of_int m * 2 ^ 11"
      by (simp add: x q pow2_numeral)
    have t: "y / pow2 q = y / 2 ^ 11"
      by (simp add: q pow2_numeral)
    show ?thesis
    proof (cases "y < 2 ^ 64 - 2 ^ 10")
      case True
      then have "y / 2 ^ 11 < of_int (2 ^ 53 - 1) + 1 / 2"
        by simp
      then have "m \<le> 2 ^ 53 - 1"
        unfolding m_def t by (rule round_half_even_below)
      then have "(of_int m :: rat) \<le> of_int (2 ^ 53 - 1)"
        by (simp only: of_int_le_iff)
      then have "x < 2 ^ 64"
        by (simp add: x')
      with True show ?thesis
        by simp
    next
      case False
      then have "of_int (2 ^ 53) - 1 / 2 \<le> y / 2 ^ 11"
        by simp
      then have "2 ^ 53 \<le> m"
        unfolding m_def t by (rule round_half_even_above) simp
      then have "(of_int (2 ^ 53) :: rat) \<le> of_int m"
        by (simp only: of_int_le_iff)
      then have "\<not> x < 2 ^ 64"
        by (simp add: x')
      with False show ?thesis
        by simp
    qed
  next
    case large
    with hi have "pow2 64 < pow2 (e + 1)"
      by (simp add: pow2_numeral)
    then have e: "64 < e + 1"
      by (simp only: pow2_less_iff)
    then have n: "- 1022 \<le> floor_log2 y"
      unfolding e_def by simp
    from e have "12 \<le> q"
      unfolding q_def e_def by simp
    then have "pow2 12 \<le> pow2 q"
      by (simp only: pow2_le_iff)
    from round_to_double_parts(3) [OF assms(1) n] have "2 ^ 52 \<le> m"
      unfolding m_def q_def by simp
    then have "(of_int (2 ^ 52) :: rat) \<le> of_int m"
      by (simp only: of_int_le_iff)
    then have "of_int (2 ^ 52) * pow2 12 \<le> of_int m * pow2 12"
      by (intro mult_right_mono) (simp_all add: pow2_numeral)
    also have "\<dots> \<le> of_int m * pow2 q"
      using m0 \<open>pow2 12 \<le> pow2 q\<close> by (intro mult_left_mono) simp_all
    finally have "\<not> x < 2 ^ 64"
      by (simp add: x pow2_numeral)
    moreover from large have "\<not> y < 2 ^ 64 - 2 ^ 10"
      by simp
    ultimately show ?thesis
      by simp
  qed
qed

lemma usable_lamports_iff:
  assumes "0 \<le> k"
  shows "usable_lamports (Finite False (of_int k)) \<longleftrightarrow> k < 2 ^ 64"
proof
  assume "usable_lamports (Finite False (of_int k))"
  then obtain n :: nat where n: "n < 2 ^ 64" "(of_int k :: rat) = of_nat n"
    unfolding usable_lamports_def by auto
  from n(2) have "(of_int k :: rat) = of_int (int n)"
    by simp
  then have "k = int n"
    by (simp only: of_int_eq_iff)
  with n(1) show "k < 2 ^ 64"
    by simp
next
  assume "k < 2 ^ 64"
  with assms have "nat k < 2 ^ 64" "(of_int k :: rat) = of_nat (nat k)"
    by (simp_all add: nat_less_iff)
  then show "usable_lamports (Finite False (of_int k))"
    unfolding usable_lamports_def by blast
qed

lemma edit_effects:
  "handleAddressChange env v =
     SetReceiverAddress v
       # (if v = [] then [] else [NewPublicKey v, SetIsAddressValid (fst (validateAddress env v))])"
  "handleAmountChange v =
     SetAmount v # (if v = [] then [] else [SetIsAmountValid (fst (validateAmount v))])"
  by (simp_all add: handleAddressChange_def handleAmountChange_def validateAddress_effects
      validateAmount_effects)

section \<open>The order of the steps of a submission\<close>

text \<open>
  Claim C1. In every run of \<open>sendTransaction\<close> with a connected wallet and inputs that pass
  validation, the steps come in the order: both validations, the transfer instruction (built
  from the connected wallet as sender, with the amount converted to lamports), the blockhash
  fetch, the signing request (for a transaction whose fee payer is the connected wallet and
  whose blockhash is the fetched one), the broadcast, the confirmation wait. A run stops at
  the first call that throws, so its steps are an initial part of that sequence;
  \<open>sendRawTransaction\<close> is called only after \<open>signTransaction\<close> returned a signed
  transaction, and never when the signing request was declined or failed.
\<close>

theorem sendTransaction_step_order:
  assumes "wallet s = Some w"
    and "fst (validateAddress env (receiverAddress s))"
    and "fst (validateAmount (amount s))"
  shows "prefix [Validate, Validate] (steps (fst (sendTransaction env s)))
       \<and> prefix (steps (fst (sendTransaction env s)))
            [Validate, Validate, Build, FetchBlockhash, Sign, Broadcast, Confirm]
       \<and> (\<forall>p. SystemProgramTransfer p \<in> set (fst (sendTransaction env s)) \<longrightarrow>
              fromPubkey p = w \<and> lamports p = lamports_of (amount s))
       \<and> (\<forall>tx. SignTransaction tx \<in> set (fst (sendTransaction env s)) \<longrightarrow>
              feePayer tx = Some w \<and> length (instructions tx) = 1
              \<and> (\<exists>bh h. getLatestBlockhash env = Inr (bh, h) \<and> recentBlockhash tx = Some bh))
       \<and> (\<forall>tx err. SignTransaction tx \<in> set (fst (sendTransaction env s))
              \<and> signTransaction env tx = Inl err \<longrightarrow>
              Broadcast \<notin> set (steps (fst (sendTransaction env s))))
       \<and> (Broadcast \<in> set (steps (fst (sendTransaction env s))) \<longrightarrow>
              (\<exists>tx sg. SignTransaction tx \<in> set (fst (sendTransaction env s))
                 \<and> signTransaction env tx = Inr sg))"
proof -
  let ?pre = "[NewPublicKey (receiverAddress s), SetIsAddressValid True, SetIsAmountValid True,
               SetIsLoading True, SetError [], SetConfirmation []]"
  obtain handler where log: "fst (sendTransaction env s)
      = ?pre @ fst (try_block env w s) @ handler @ [SetIsLoading False]"
    and handler: "steps handler = []" "\<And>x. x \<in> set handler \<Longrightarrow> \<exists>m. x = SetError m"
    using assms set_catch_block
    by (cases "snd (try_block env w s)") (auto simp: sendTransaction_guarded)
  have h1: "\<And>p. SystemProgramTransfer p \<notin> set handler"
    and h2: "\<And>tx. SignTransaction tx \<notin> set handler"
    using handler(2) by blast+
  show ?thesis
    by (cases env w s rule: try_block_cases)
      (simp_all add: log steps_append handler(1) h1 h2)
qed

theorem sendTransaction_step_order_witness:
  "wallet s_ready = Some sender_key
   \<and> fst (validateAddress env_ok (receiverAddress s_ready))
   \<and> fst (validateAmount (amount s_ready))
   \<and> steps (fst (sendTransaction env_ok s_ready))
       = [Validate, Validate, Build, FetchBlockhash, Sign, Broadcast, Confirm]
   \<and> SignTransaction sample_transaction \<in> set (fst (sendTransaction env_ok s_ready))
   \<and> feePayer sample_transaction = Some sender_key
   \<and> fst (validateAddress env_rejecting (receiverAddress s_ready))
   \<and> SignTransaction sample_transaction \<in> set (fst (sendTransaction env_rejecting s_ready))
   \<and> signTransaction env_rejecting sample_transaction
       = Inl (WithMessage (js ''User rejected the request.''))
   \<and> prefix (steps (fst (sendTransaction env_rejecting s_ready)))
        [Validate, Validate, Build, FetchBlockhash, Sign, Broadcast, Confirm]
   \<and> Broadcast \<notin> set (steps (fst (sendTransaction env_rejecting s_ready)))"
proof -
  have w: "wallet s_ready = Some sender_key"
    and m: "fst (validateAmount (amount s_ready))"
    by (rule guards_ready)+
  have a: "fst (validateAddress env_ok (receiverAddress s_ready))"
    by (simp add: guards_ready(2) validateAddress_def newPublicKey_ok_system)
  have a': "fst (validateAddress env_rejecting (receiverAddress s_ready))"
    by (simp add: guards_ready(2) validateAddress_def env_rejecting_simps newPublicKey_ok_system)
  have ok: "steps (fst (sendTransaction env_ok s_ready))
      = [Validate, Validate, Build, FetchBlockhash, Sign, Broadcast, Confirm]"
    and ok_sign: "SignTransaction sample_transaction \<in> set (fst (sendTransaction env_ok s_ready))"
    by (simp_all add: sendTransaction_ok_ready)
  have signed: "SignTransaction sample_transaction
      \<in> set (fst (sendTransaction env_rejecting s_ready))"
    by (simp add: sendTransaction_rejecting_ready)
  have declined: "signTransaction env_rejecting sample_transaction
      = Inl (WithMessage (js ''User rejected the request.''))"
    by (rule env_rejecting_simps)
  note order_ok = sendTransaction_step_order [OF w a m]
  note order = sendTransaction_step_order [OF w a' m]
  from order_ok ok_sign have fee: "feePayer sample_transaction = Some sender_key"
    by blast
  from order have pre: "prefix (steps (fst (sendTransaction env_rejecting s_ready)))
      [Validate, Validate, Build, FetchBlockhash, Sign, Broadcast, Confirm]"
    by blast
  from order signed declined
  have none: "Broadcast \<notin> set (steps (fst (sendTransaction env_rejecting s_ready)))"
    by blast
  from w a m ok ok_sign fee a' signed declined pre none show ?thesis
    by blast
qed

section \<open>Submitting without a wallet\<close>

text \<open>
  Claim C2. A call of \<open>sendTransaction\<close> while no wallet is connected sets the error
  \<^verbatim>\<open>Please connect your wallet first.\<close> and does nothing else: it calls neither the ledger
  client nor the wallet, and every other cell of the state (inputs, validity flags,
  confirmation message, loading flag) keeps its value.
\<close>

theorem sendTransaction_without_wallet:
  assumes "wallet s = None"
  shows "sendTransaction env s = ([SetError (js ''Please connect your wallet first.'')], Fulfilled)
       \<and> ledger_calls (fst (sendTransaction env s)) = []
       \<and> external_calls (fst (sendTransaction env s)) = []
       \<and> commit s (fst (sendTransaction env s))
           = s\<lparr>error := js ''Please connect your wallet first.''\<rparr>"
  using assms by (simp add: sendTransaction_def ledger_calls_def external_calls_def)

theorem sendTransaction_without_wallet_witness:
  "wallet initial_state = None
   \<and> sendTransaction env_ok initial_state
       = ([SetError (js ''Please connect your wallet first.'')], Fulfilled)
   \<and> ledger_calls (fst (sendTransaction env_ok initial_state)) = []
   \<and> external_calls (fst (sendTransaction env_ok initial_state)) = []
   \<and> commit initial_state (fst (sendTransaction env_ok initial_state))
       = initial_state\<lparr>error := js ''Please connect your wallet first.''\<rparr>"
proof -
  have w: "wallet initial_state = None"
    by (simp add: initial_state_def)
  show ?thesis
    by (rule conjI [OF w sendTransaction_without_wallet [OF w]])
qed

section \<open>Rejecting invalid input\<close>

text \<open>
  Claim C3. With a connected wallet, \<open>sendTransaction\<close> validates the address first. If the
  address is invalid, the run sets \<^verbatim>\<open>Invalid receiver address.\<close> and ends: the amount
  validator is not called, so its validity flag keeps its value. If the address is valid and
  the amount is not, the run sets \<^verbatim>\<open>Invalid amount.\<close> and ends. In both cases neither the
  ledger client nor the wallet is called.
\<close>

theorem sendTransaction_rejects_invalid_input:
  assumes "wallet s = Some w"
  shows "(\<not> fst (validateAddress env (receiverAddress s)) \<longrightarrow>
            sendTransaction env s =
              ([NewPublicKey (receiverAddress s), SetIsAddressValid False,
                SetError (js ''Invalid receiver address.'')], Fulfilled)
            \<and> isAmountValid (commit s (fst (sendTransaction env s))) = isAmountValid s
            \<and> error (commit s (fst (sendTransaction env s))) = js ''Invalid receiver address.'')
       \<and> (fst (validateAddress env (receiverAddress s)) \<and> \<not> fst (validateAmount (amount s)) \<longrightarrow>
            sendTransaction env s =
              ([NewPublicKey (receiverAddress s), SetIsAddressValid True, SetIsAmountValid False,
                SetError (js ''Invalid amount.'')], Fulfilled)
            \<and> error (commit s (fst (sendTransaction env s))) = js ''Invalid amount.'')
       \<and> (\<not> (fst (validateAddress env (receiverAddress s)) \<and> fst (validateAmount (amount s))) \<longrightarrow>
            external_calls (fst (sendTransaction env s)) = [])"
  by (simp add: sendTransaction_guarded [OF assms] external_calls_def)

theorem sendTransaction_rejects_invalid_input_witness:
  "wallet s_bad_address = Some sender_key
   \<and> \<not> fst (validateAddress env_ok (receiverAddress s_bad_address))
   \<and> sendTransaction env_ok s_bad_address =
       ([NewPublicKey (js ''not-an-address''), SetIsAddressValid False,
         SetError (js ''Invalid receiver address.'')], Fulfilled)
   \<and> external_calls (fst (sendTransaction env_ok s_bad_address)) = []
   \<and> wallet s_zero = Some sender_key
   \<and> fst (validateAddress env_ok (receiverAddress s_zero))
   \<and> \<not> fst (validateAmount (amount s_zero))
   \<and> sendTransaction env_ok s_zero =
       ([NewPublicKey system_address, SetIsAddressValid True, SetIsAmountValid False,
         SetError (js ''Invalid amount.'')], Fulfilled)
   \<and> external_calls (fst (sendTransaction env_ok s_zero)) = []"
proof -
  have w1: "wallet s_bad_address = Some sender_key"
    by (simp add: s_bad_address_eq)
  have a1: "\<not> fst (validateAddress env_ok (receiverAddress s_bad_address))"
    by (simp add: s_bad_address_eq validateAddress_def newPublicKey_ok_bad)
  have w2: "wallet s_zero = Some sender_key"
    by (simp add: s_zero_eq)
  have a2: "fst (validateAddress env_ok (receiverAddress s_zero))"
    by (simp add: s_zero_eq validateAddress_def newPublicKey_ok_system)
  have m2: "\<not> fst (validateAmount (amount s_zero))"
    by (simp add: s_zero_eq validateAmount_0)
  have r1: "receiverAddress s_bad_address = js ''not-an-address''"
    by (simp add: s_bad_address_eq)
  have r2: "receiverAddress s_zero = system_address"
    by (simp add: s_zero_eq)
  from sendTransaction_rejects_invalid_input [OF w1, of env_ok]
       sendTransaction_rejects_invalid_input [OF w2, of env_ok]
       w1 a1 w2 a2 m2
  show ?thesis
    unfolding r1 r2 by blast
qed

section \<open>The conversion to lamports\<close>

text \<open>
  Claim C4, as stated, fails in two ways. The product \<^verbatim>\<open>parseFloat(amount) * 1e9\<close> is a binary64
  product, rounded before \<^verbatim>\<open>Math.round\<close> sees it: the valid amount \<^verbatim>\<open>4194304.9\<close> parses to the
  binary64 value \<open>2251800296869069 / 2\<^sup>2\<^sup>9\<close>, whose product with \<open>10\<^sup>9\<close> has 4194304900000000
  as its nearest integer, and the conversion gives 4194304900000001. And a valid amount
  need not give an integer at all: \<^verbatim>\<open>Infinity\<close> is valid and converts to \<open>+\<infinity>\<close>.
\<close>

theorem lamports_of_not_exact_rounding:
  "fst (validateAmount (js ''4194304.9''))
   \<and> parseFloat (js ''4194304.9'') = Finite False (2251800296869069 / 536870912)
   \<and> round ((2251800296869069 / 536870912 :: rat) * 10 ^ 9) = 4194304900000000
   \<and> lamports_of (js ''4194304.9'') = Finite False 4194304900000001
   \<and> lamports_of (js ''4194304.9'')
       \<noteq> Finite False (of_int (round ((2251800296869069 / 536870912 :: rat) * 10 ^ 9)))
   \<and> fst (validateAmount (js ''Infinity''))
   \<and> lamports_of (js ''Infinity'') = Infinity False"
proof -
  have "round ((2251800296869069 / 536870912 :: rat) * 10 ^ 9) = 4194304900000000"
    by (simp add: round_def)
  moreover have "lamports_of (js ''4194304.9'')
      \<noteq> Finite False (of_int (round ((2251800296869069 / 536870912 :: rat) * 10 ^ 9)))"
    unfolding lamports_of_4194304_9 by (simp add: round_def)
  moreover have "fst (validateAmount (js ''4194304.9''))" "fst (validateAmount (js ''Infinity''))"
    by (simp_all add: validateAmount_def parseFloat_4194304_9 parseFloat_Infinity)
  moreover have "lamports_of (js ''Infinity'') = Infinity False"
    by (simp add: lamports_of_def parseFloat_Infinity)
  ultimately show ?thesis
    using parseFloat_4194304_9 lamports_of_4194304_9 by blast
qed

text \<open>
  Claim C4, amended. For every amount string that the validator accepts, the conversion is
  \<^verbatim>\<open>Math.round\<close> of the binary64 product \<^verbatim>\<open>parseFloat(amount) * 1e9\<close>. With \<open>p\<close> the parsed value:
  if \<open>p\<close> is finite and \<open>p \<sqdot> 10\<^sup>9\<close> is below \<open>2\<^sup>1\<^sup>0\<^sup>2\<^sup>4 - 2\<^sup>9\<^sup>7\<^sup>0\<close>, the product is a binary64 value \<open>x\<close>
  nearest to \<open>p \<sqdot> 10\<^sup>9\<close> (the one with the even significand when two are equally near), and
  the result is the integer nearest to \<open>x\<close>, at most one half away, a tie going up; otherwise
  (\<open>p\<close> is \<open>+\<infinity>\<close>, or \<open>p \<sqdot> 10\<^sup>9\<close> is \<open>2\<^sup>1\<^sup>0\<^sup>2\<^sup>4 - 2\<^sup>9\<^sup>7\<^sup>0\<close> or more) the product and the result
  are \<open>+\<infinity>\<close>. The conversion is deterministic: whatever the state and the environment, the
  transfer instruction of a run carries \<open>lamports_of\<close> of the amount string. The string
  \<^verbatim>\<open>0.01\<close>, also written \<^verbatim>\<open>1e-2\<close>, gives exactly 10,000,000; \<^verbatim>\<open>1E+1\<close> gives \<open>10\<^sup>1\<^sup>0\<close>, and
  \<^verbatim>\<open>  +12.5e-3 SOL\<close>, read up to the end of its number, gives 12,500,000.
\<close>

theorem lamports_of_is_rounded_product:
  assumes "fst (validateAmount a)"
  shows "((\<exists>p x. 0 < p \<and> parseFloat a = Finite False p
             \<and> p * 10 ^ 9 < 2 ^ 1024 - 2 ^ 970
             \<and> number_times (parseFloat a) (Finite False 1000000000) = Finite False x
             \<and> binary64_magnitude x
             \<and> (\<forall>z. binary64_magnitude z \<longrightarrow> \<bar>x - p * 10 ^ 9\<bar> \<le> \<bar>z - p * 10 ^ 9\<bar>)
             \<and> (\<forall>z. binary64_magnitude z \<and> z \<noteq> x \<and> \<bar>z - p * 10 ^ 9\<bar> = \<bar>x - p * 10 ^ 9\<bar>
                  \<longrightarrow> (\<exists>m. even m \<and> x = of_int m * pow2 (ulp_exponent (p * 10 ^ 9))))
             \<and> lamports_of a = Finite False (of_int (round x))
             \<and> \<bar>of_int (round x) - x\<bar> \<le> 1 / 2)
          \<or> ((parseFloat a = Infinity False
                \<or> (\<exists>p. parseFloat a = Finite False p \<and> 2 ^ 1024 - 2 ^ 970 \<le> p * 10 ^ 9))
             \<and> number_times (parseFloat a) (Finite False 1000000000) = Infinity False
             \<and> lamports_of a = Infinity False))
       \<and> (\<forall>env s w t. wallet s = Some w \<and> amount s = a
             \<and> SystemProgramTransfer t \<in> set (fst (sendTransaction env s))
             \<longrightarrow> lamports t = lamports_of a)
       \<and> lamports_of (js ''0.01'') = Finite False 10000000
       \<and> lamports_of (js ''1e-2'') = Finite False 10000000
       \<and> lamports_of (js ''1E+1'') = Finite False 10000000000
       \<and> lamports_of (js ''  +12.5e-3 SOL'') = Finite False 12500000"
proof -
  have conversion:
    "(\<exists>p x. 0 < p \<and> parseFloat a = Finite False p
         \<and> p * 10 ^ 9 < 2 ^ 1024 - 2 ^ 970
         \<and> number_times (parseFloat a) (Finite False 1000000000) = Finite False x
         \<and> binary64_magnitude x
         \<and> (\<forall>z. binary64_magnitude z \<longrightarrow> \<bar>x - p * 10 ^ 9\<bar> \<le> \<bar>z - p * 10 ^ 9\<bar>)
         \<and> (\<forall>z. binary64_magnitude z \<and> z \<noteq> x \<and> \<bar>z - p * 10 ^ 9\<bar> = \<bar>x - p * 10 ^ 9\<bar>
              \<longrightarrow> (\<exists>m. even m \<and> x = of_int m * pow2 (ulp_exponent (p * 10 ^ 9))))
         \<and> lamports_of a = Finite False (of_int (round x))
         \<and> \<bar>of_int (round x) - x\<bar> \<le> 1 / 2)
      \<or> ((parseFloat a = Infinity False
            \<or> (\<exists>p. parseFloat a = Finite False p \<and> 2 ^ 1024 - 2 ^ 970 \<le> p * 10 ^ 9))
         \<and> number_times (parseFloat a) (Finite False 1000000000) = Infinity False
         \<and> lamports_of a = Infinity False)"
    using assms
  proof (cases rule: product_of_valid_cases)
    case infinite
    then show ?thesis
      by (simp add: lamports_of_def)
  next
    case (overflow p)
    then have "lamports_of a = Infinity False"
      by (simp add: lamports_of_def)
    with overflow show ?thesis
      by blast
  next
    case (finite p x)
    have nonneg: "0 \<le> p * 10 ^ 9" and pos: "0 < p * 10 ^ 9"
      using finite(1) by simp_all
    from round_to_double_nearest [OF nonneg finite(6)]
    have x: "binary64_magnitude x"
      and nearest: "\<forall>z. binary64_magnitude z \<longrightarrow> \<bar>x - p * 10 ^ 9\<bar> \<le> \<bar>z - p * 10 ^ 9\<bar>"
      by simp_all
    have ties: "\<forall>z. binary64_magnitude z \<and> z \<noteq> x \<and> \<bar>z - p * 10 ^ 9\<bar> = \<bar>x - p * 10 ^ 9\<bar>
        \<longrightarrow> (\<exists>m. even m \<and> x = of_int m * pow2 (ulp_exponent (p * 10 ^ 9)))"
      using round_to_double_ties_to_even [OF pos finite(6)] by blast
    have "lamports_of a = Finite False (of_int (round x))"
      using finite(4) by (simp only: lamports_of_def finite(5) Math_round_nonneg)
    moreover have "\<bar>of_int (round x) - x\<bar> \<le> 1 / 2"
      by (rule of_int_round_abs_le)
    ultimately show ?thesis
      using finite(1,2,3,5) x nearest ties by blast
  qed
  moreover have "\<forall>env s w t. wallet s = Some w \<and> amount s = a
      \<and> SystemProgramTransfer t \<in> set (fst (sendTransaction env s))
      \<longrightarrow> lamports t = lamports_of a"
    using transfer_in_log by blast
  ultimately show ?thesis
    using lamports_of_0_01 lamports_of_exponents lamports_of_spaced by blast
qed

theorem lamports_of_is_rounded_product_witness:
  "fst (validateAmount (js ''4194304.9''))
   \<and> number_times (parseFloat (js ''4194304.9'')) (Finite False 1000000000)
       = Finite False (8388609800000001 / 2)
   \<and> lamports_of (js ''4194304.9'') = Finite False 4194304900000001
   \<and> fst (validateAmount (js ''0.01''))
   \<and> lamports_of (js ''0.01'') = Finite False 10000000
   \<and> SystemProgramTransfer sample_transfer \<in> set (fst (sendTransaction env_ok s_ready))
   \<and> lamports sample_transfer = Finite False 10000000
   \<and> fst (validateAmount (js ''4611686019''))
   \<and> lamports_of (js ''4611686019'') = Finite False 4611686019000000512
   \<and> (\<exists>m. even m \<and> (4611686019000000512 :: rat) = of_int m * pow2 10)"
proof -
  have v: "fst (validateAmount (js ''4194304.9''))"
    by (simp add: validateAmount_def parseFloat_4194304_9)
  have v': "fst (validateAmount (js ''0.01''))"
    by (simp add: validateAmount_0_01)
  note large = lamports_of_is_rounded_product [OF v]
  have r: "round (8388609800000001 / 2 :: rat) = 4194304900000001"
    by (simp add: round_def)
  from large obtain x
    where x: "Finite False (8388609800000001 / 2) = Finite False x"
      and l: "lamports_of (js ''4194304.9'') = Finite False (of_int (round x))"
    unfolding product_4194304_9 by blast
  from x have "x = 8388609800000001 / 2"
    by simp
  with l have rounded: "lamports_of (js ''4194304.9'') = Finite False 4194304900000001"
    by (simp only: r of_int_numeral)
  have t: "SystemProgramTransfer sample_transfer \<in> set (fst (sendTransaction env_ok s_ready))"
    by (simp add: sendTransaction_ok_ready)
  have w: "wallet s_ready = Some sender_key" "amount s_ready = js ''0.01''"
    by (simp_all add: s_ready_eq)
  from lamports_of_is_rounded_product [OF v'] w t
  have l': "lamports sample_transfer = lamports_of (js ''0.01'')"
    by blast
  from lamports_of_is_rounded_product [OF v']
  have l'': "lamports_of (js ''0.01'') = Finite False 10000000"
    by blast
  have v'': "fst (validateAmount (js ''4611686019''))"
    by (simp add: validateAmount_def parseFloat_tie)
  have "number_times (parseFloat (js ''4611686019'')) (Finite False 1000000000) \<noteq> Infinity False"
    unfolding product_tie by simp
  with lamports_of_is_rounded_product [OF v'']
  have "\<exists>p x. 0 < p \<and> parseFloat (js ''4611686019'') = Finite False p
      \<and> p * 10 ^ 9 < 2 ^ 1024 - 2 ^ 970
      \<and> number_times (parseFloat (js ''4611686019'')) (Finite False 1000000000) = Finite False x
      \<and> binary64_magnitude x
      \<and> (\<forall>z. binary64_magnitude z \<longrightarrow> \<bar>x - p * 10 ^ 9\<bar> \<le> \<bar>z - p * 10 ^ 9\<bar>)
      \<and> (\<forall>z. binary64_magnitude z \<and> z \<noteq> x \<and> \<bar>z - p * 10 ^ 9\<bar> = \<bar>x - p * 10 ^ 9\<bar>
           \<longrightarrow> (\<exists>m. even m \<and> x = of_int m * pow2 (ulp_exponent (p * 10 ^ 9))))
      \<and> lamports_of (js ''4611686019'') = Finite False (of_int (round x))
      \<and> \<bar>of_int (round x) - x\<bar> \<le> 1 / 2"
    by (elim conjE disjE) simp_all
  then obtain p y where parsed: "parseFloat (js ''4611686019'') = Finite False p"
    and product: "number_times (parseFloat (js ''4611686019'')) (Finite False 1000000000)
      = Finite False y"
    and ties: "\<forall>z. binary64_magnitude z \<and> z \<noteq> y \<and> \<bar>z - p * 10 ^ 9\<bar> = \<bar>y - p * 10 ^ 9\<bar>
        \<longrightarrow> (\<exists>m. even m \<and> y = of_int m * pow2 (ulp_exponent (p * 10 ^ 9)))"
    and k: "lamports_of (js ''4611686019'') = Finite False (of_int (round y))"
    by (elim exE conjE)
  from parsed have p: "Finite False 4611686019 = Finite False p"
    by (simp only: parseFloat_tie)
  from product have y: "Finite False 4611686019000000512 = Finite False y"
    by (simp only: product_tie)
  from p y have py: "p = 4611686019" "y = 4611686019000000512"
    by simp_all
  have "p * 10 ^ 9 = 4611686019000000000"
    by (simp add: py)
  note scaled = this
  have "(4611686018999999488 :: rat) \<noteq> y"
    "\<bar>4611686018999999488 - p * 10 ^ 9\<bar> = \<bar>y - p * 10 ^ 9\<bar>"
    unfolding scaled by (simp_all add: py)
  with binary64_tie
  have "binary64_magnitude 4611686018999999488 \<and> 4611686018999999488 \<noteq> y
      \<and> \<bar>4611686018999999488 - p * 10 ^ 9\<bar> = \<bar>y - p * 10 ^ 9\<bar>"
    by (intro conjI)
  then have "\<exists>m. even m \<and> y = of_int m * pow2 (ulp_exponent (p * 10 ^ 9))"
    by (rule ties [rule_format])
  then have even: "\<exists>m. even m \<and> (4611686019000000512 :: rat) = of_int m * pow2 10"
    unfolding py ulp_exponent_tie .
  have "round (4611686019000000512 :: rat) = 4611686019000000512"
    by (simp add: round_def)
  with k have tie: "lamports_of (js ''4611686019'') = Finite False 4611686019000000512"
    by (simp add: py)
  from l' l'' have sample: "lamports sample_transfer = Finite False 10000000"
    by (rule trans)
  from v product_4194304_9 rounded v' l'' t sample v'' tie even show ?thesis
    by (intro conjI)
qed

section \<open>The error and the confirmation message\<close>

text \<open>
  Claim C5, as stated, fails: the user can reach a state in which both messages are shown.
  After a successful submission the confirmation holds the success message; the user clears
  the address field (the validity flag keeps its value, so the button stays enabled) and
  submits again; the address guard fails and sets the error, and nothing clears the
  confirmation.
\<close>

theorem error_beside_confirmation:
  "reachable s_both
   \<and> error s_both = js ''Invalid receiver address.''
   \<and> confirmation s_both = success_message (js ''5sig'')
   \<and> error s_both \<noteq> []
   \<and> confirmation s_both \<noteq> []"
proof -
  have "error s_both = js ''Invalid receiver address.''"
    and "confirmation s_both = success_message (js ''5sig'')"
    by (simp_all add: s_both_eq)
  moreover have "error s_both \<noteq> []" "confirmation s_both \<noteq> []"
    by (simp_all add: s_both_eq js_def success_message_def)
  ultimately show ?thesis
    using reachable_both by blast
qed

text \<open>
  Claim C5, amended. A run of \<open>sendTransaction\<close> with a connected wallet clears both messages
  once the address and the amount have passed validation, before any call to the ledger
  client or the wallet; a run in which a guard fails sets the error and leaves the
  confirmation as it was. From the clearing to the end of the run at most one of the two
  messages is non-empty in every state, with one exception: when a call throws after the
  broadcast has succeeded, the error is set while the confirmation still holds the interim
  \<^verbatim>\<open>Transaction submitted...\<close>. A run in which nothing throws ends with an empty error and
  the success message.
\<close>

theorem messages_during_submission:
  assumes "wallet s = Some w"
  shows "(\<not> (fst (validateAddress env (receiverAddress s)) \<and> fst (validateAmount (amount s))) \<longrightarrow>
            confirmation (commit s (fst (sendTransaction env s))) = confirmation s
            \<and> error (commit s (fst (sendTransaction env s))) \<noteq> [])
       \<and> (fst (validateAddress env (receiverAddress s)) \<and> fst (validateAmount (amount s)) \<longrightarrow>
            (\<exists>pre post. fst (sendTransaction env s) = pre @ post
               \<and> pre = [NewPublicKey (receiverAddress s), SetIsAddressValid True,
                        SetIsAmountValid True, SetIsLoading True, SetError [], SetConfirmation []]
               \<and> external_calls pre = []
               \<and> error (commit s pre) = [] \<and> confirmation (commit s pre) = []
               \<and> (\<forall>t \<in> set (snapshots (commit s pre) post).
                    error t = [] \<or> confirmation t = []
                    \<or> (confirmation t = submitted_message
                        \<and> (\<exists>raw sig. SendRawTransaction raw \<in> set post
                              \<and> sendRawTransaction env raw = Inr sig)))
               \<and> (snd (try_block env w s) = None \<longrightarrow>
                    error (commit s (fst (sendTransaction env s))) = []
                    \<and> (\<exists>sig. confirmation (commit s (fst (sendTransaction env s)))
                               = success_message sig))))"
proof (cases "fst (validateAddress env (receiverAddress s)) \<and> fst (validateAmount (amount s))")
  case False
  then show ?thesis
    using assms by (auto simp: sendTransaction_guarded js_def)
next
  case True
  let ?pre = "[NewPublicKey (receiverAddress s), SetIsAddressValid True, SetIsAmountValid True,
               SetIsLoading True, SetError [], SetConfirmation []]"
  define post where "post = fst (try_block env w s)
      @ (case snd (try_block env w s) of None \<Rightarrow> [] | Some err \<Rightarrow> fst (catch_block err))
      @ [SetIsLoading False]"
  have log: "fst (sendTransaction env s) = ?pre @ post"
    using assms True by (simp add: sendTransaction_guarded post_def)
  have "(\<forall>t \<in> set (snapshots (commit s ?pre) post).
          error t = [] \<or> confirmation t = []
          \<or> (confirmation t = submitted_message
              \<and> (\<exists>raw sig. SendRawTransaction raw \<in> set post
                    \<and> sendRawTransaction env raw = Inr sig)))
       \<and> (snd (try_block env w s) = None \<longrightarrow>
            error (commit s (?pre @ post)) = []
            \<and> (\<exists>sig. confirmation (commit s (?pre @ post)) = success_message sig))"
  proof (cases env w s rule: try_block_cases)
    case (key_throws e)
    then show ?thesis
      unfolding post_def by (cases e) simp_all
  next
    case (transfer_throws k e)
    then show ?thesis
      unfolding post_def by (cases e) simp_all
  next
    case (blockhash_throws k i e)
    then show ?thesis
      unfolding post_def by (cases e) simp_all
  next
    case (sign_throws k i bh h e)
    then show ?thesis
      unfolding post_def by (cases e) simp_all
  next
    case (serialize_throws k i bh h sg e)
    then show ?thesis
      unfolding post_def by (cases e) simp_all
  next
    case (broadcast_throws k i bh h sg raw e)
    then show ?thesis
      unfolding post_def by (cases e) simp_all
  next
    case (confirm_throws k i bh h sg raw sig e)
    then show ?thesis
      unfolding post_def by (cases e) auto
  next
    case (confirmed k i bh h sg raw sig)
    then show ?thesis
      unfolding post_def by auto
  qed
  moreover have "external_calls ?pre = []"
    "error (commit s ?pre) = []" "confirmation (commit s ?pre) = []"
    by (simp_all add: external_calls_def)
  ultimately show ?thesis
    using log True by auto
qed

theorem messages_during_submission_witness:
  "wallet s_cleared = Some sender_key
   \<and> \<not> fst (validateAddress env_ok (receiverAddress s_cleared))
   \<and> confirmation (commit s_cleared (fst (sendTransaction env_ok s_cleared)))
       = confirmation s_cleared
   \<and> error (commit s_cleared (fst (sendTransaction env_ok s_cleared))) \<noteq> []
   \<and> wallet s_ready = Some sender_key
   \<and> fst (validateAddress env_ok (receiverAddress s_ready))
   \<and> fst (validateAmount (amount s_ready))
   \<and> snd (try_block env_ok sender_key s_ready) = None
   \<and> error (commit s_ready (fst (sendTransaction env_ok s_ready))) = []
   \<and> (\<exists>sig. confirmation (commit s_ready (fst (sendTransaction env_ok s_ready)))
              = success_message sig)"
proof -
  have w: "wallet s_cleared = Some sender_key"
    by (simp add: s_cleared_eq)
  have a: "\<not> fst (validateAddress env_ok (receiverAddress s_cleared))"
    by (simp add: s_cleared_eq validateAddress_def newPublicKey_ok_empty)
  have a': "fst (validateAddress env_ok (receiverAddress s_ready))"
    by (simp add: guards_ready(2) validateAddress_def newPublicKey_ok_system)
  have t: "snd (try_block env_ok sender_key s_ready) = None"
    by (simp add: try_block_ok_ready)
  from messages_during_submission [OF w, of env_ok] a
  have failed: "confirmation (commit s_cleared (fst (sendTransaction env_ok s_cleared)))
      = confirmation s_cleared"
    "error (commit s_cleared (fst (sendTransaction env_ok s_cleared))) \<noteq> []"
    by blast+
  from messages_during_submission [OF guards_ready(1), of env_ok] a' guards_ready(3) t
  have succeeded: "error (commit s_ready (fst (sendTransaction env_ok s_ready))) = []"
    "\<exists>sig. confirmation (commit s_ready (fst (sendTransaction env_ok s_ready)))
           = success_message sig"
    by blast+
  from w a failed guards_ready(1) a' guards_ready(3) t succeeded show ?thesis
    by blast
qed

section \<open>Editing an input after a finished submission\<close>

text \<open>
  Claim C6, as stated, fails: an edit does not clear the messages. After a submission that
  failed with \<^verbatim>\<open>Invalid receiver address.\<close>, typing a valid address leaves that error in place.
\<close>

theorem edit_keeps_failed_message:
  "reachable s_failed
   \<and> error s_failed = js ''Invalid receiver address.''
   \<and> s_edited = commit s_failed (handleAddressChange env_ok system_address)
   \<and> reachable s_edited
   \<and> error s_edited = js ''Invalid receiver address.''
   \<and> error s_edited \<noteq> []"
proof -
  have "error s_failed = js ''Invalid receiver address.''"
    by (simp add: s_failed_eq)
  moreover have "error s_edited = js ''Invalid receiver address.''"
    by (simp add: s_edited_eq)
  moreover have "error s_edited \<noteq> []"
    by (simp add: s_edited_eq js_def)
  ultimately show ?thesis
    using reachable_failed reachable_edited s_edited_def by blast
qed

text \<open>
  Claim C6, amended. An edit of the address or of the amount field stores the new value in
  that field, re-evaluates that field's validity flag when the new value is not empty (the
  address by a call of the \<open>PublicKey\<close> constructor; an empty value leaves the flag as it
  was), and changes nothing else: the error message and the confirmation message are not
  cleared, and the connected wallet stays as it was.
\<close>

theorem edits_change_only_their_input:
  "handleAddressChange env v =
     SetReceiverAddress v
       # (if v = [] then [] else [NewPublicKey v, SetIsAddressValid (fst (validateAddress env v))])
   \<and> commit s (handleAddressChange env v) =
       s\<lparr>receiverAddress := v,
         isAddressValid := (if v = [] then isAddressValid s else fst (validateAddress env v))\<rparr>
   \<and> handleAmountChange v =
       SetAmount v # (if v = [] then [] else [SetIsAmountValid (fst (validateAmount v))])
   \<and> commit s (handleAmountChange v) =
       s\<lparr>amount := v,
         isAmountValid := (if v = [] then isAmountValid s else fst (validateAmount v))\<rparr>
   \<and> error (commit s (handleAddressChange env v)) = error s
   \<and> confirmation (commit s (handleAddressChange env v)) = confirmation s
   \<and> wallet (commit s (handleAddressChange env v)) = wallet s
   \<and> error (commit s (handleAmountChange v)) = error s
   \<and> confirmation (commit s (handleAmountChange v)) = confirmation s
   \<and> wallet (commit s (handleAmountChange v)) = wallet s"
  by (simp add: edit_effects)

theorem edits_change_only_their_input_witness:
  "commit s_failed (handleAddressChange env_ok system_address)
     = s_failed\<lparr>receiverAddress := system_address, isAddressValid := True\<rparr>
   \<and> error (commit s_failed (handleAddressChange env_ok system_address))
       = js ''Invalid receiver address.''
   \<and> commit s_done (handleAmountChange (js ''0''))
       = s_done\<lparr>amount := js ''0'', isAmountValid := False\<rparr>
   \<and> confirmation (commit s_done (handleAmountChange (js ''0'')))
       = success_message (js ''5sig'')
   \<and> wallet (commit s_done (handleAmountChange (js ''0''))) = Some sender_key
   \<and> commit s_done (handleAmountChange []) = s_done\<lparr>amount := []\<rparr>"
proof -
  have "system_address \<noteq> []"
    by (simp add: system_address_def js_def)
  note a = this validateAddress_ok_system
  have "js ''0'' \<noteq> []"
    by (simp add: js_def)
  moreover have "\<not> fst (validateAmount (js ''0''))"
    by (simp add: validateAmount_0)
  ultimately have m: "js ''0'' \<noteq> []" "\<not> fst (validateAmount (js ''0''))"
    by blast+
  have e: "error s_failed = js ''Invalid receiver address.''"
    "confirmation s_done = success_message (js ''5sig'')" "wallet s_done = Some sender_key"
    by (simp_all add: s_failed_eq s_done_eq)
  note address = edits_change_only_their_input [of env_ok system_address s_failed]
  note amount = edits_change_only_their_input [of env_ok "js ''0''" s_done]
  note empty = edits_change_only_their_input [of env_ok "[]" s_done]
  from address a e(1)
  have "commit s_failed (handleAddressChange env_ok system_address)
      = s_failed\<lparr>receiverAddress := system_address, isAddressValid := True\<rparr>"
    and "error (commit s_failed (handleAddressChange env_ok system_address))
      = js ''Invalid receiver address.''"
    by simp_all
  moreover from amount m e(2,3)
  have "commit s_done (handleAmountChange (js ''0''))
      = s_done\<lparr>amount := js ''0'', isAmountValid := False\<rparr>"
    and "confirmation (commit s_done (handleAmountChange (js ''0'')))
      = success_message (js ''5sig'')"
    and "wallet (commit s_done (handleAmountChange (js ''0''))) = Some sender_key"
    by simp_all
  moreover from empty have "commit s_done (handleAmountChange []) = s_done\<lparr>amount := []\<rparr>"
    by simp
  ultimately show ?thesis
    by blast
qed

section \<open>The error shown for a thrown message\<close>

text \<open>
  Claim C7, as stated, fails: the \<^verbatim>\<open>catch\<close> block has a third test, for
  \<^verbatim>\<open>invalid address\<close>, between the two the claim names. A broadcast that fails with the message
  \<^verbatim>\<open>invalid address\<close> (which contains neither \<^verbatim>\<open>insufficient funds\<close> nor \<^verbatim>\<open>User rejected\<close>) ends with
  \<^verbatim>\<open>Invalid wallet address.\<close>, not with the generic text and the raw message.
\<close>

theorem invalid_address_message_not_generic:
  "snd (try_block env_invalid sender_key s_ready) = Some (WithMessage (js ''invalid address''))
   \<and> \<not> js_includes (js ''invalid address'') (js ''insufficient funds'')
   \<and> \<not> js_includes (js ''invalid address'') (js ''User rejected'')
   \<and> error (commit s_ready (fst (sendTransaction env_invalid s_ready)))
       = js ''Invalid wallet address.''
   \<and> error (commit s_ready (fst (sendTransaction env_invalid s_ready)))
       \<noteq> js ''Transaction Failed: invalid address''"
proof -
  have "errorMessage (js ''invalid address'') = js ''Invalid wallet address.''"
    by (simp add: errorMessage_def js_def)
  with sendTransaction_outcome [OF guards_ready(1) guards_invalid_ready guards_ready(3)
      try_block_invalid_ready]
  have "error (commit s_ready (fst (sendTransaction env_invalid s_ready)))
      = js ''Invalid wallet address.''"
    by (simp add: commit_append)
  moreover have "js ''Invalid wallet address.'' \<noteq> js ''Transaction Failed: invalid address''"
    and "\<not> js_includes (js ''invalid address'') (js ''insufficient funds'')"
    and "\<not> js_includes (js ''invalid address'') (js ''User rejected'')"
    by (simp_all add: js_def)
  ultimately show ?thesis
    by (simp add: try_block_invalid_ready)
qed

text \<open>
  Claim C7, amended. When a call of the \<^verbatim>\<open>try\<close> block (building the transfer, fetching the
  blockhash, signing, serializing, broadcasting or confirming) throws a value whose message
  is the string \<open>m\<close>, the run ends fulfilled, with the loading flag off and the error chosen
  by the first test that applies, in this order: \<open>m\<close> contains \<^verbatim>\<open>insufficient funds\<close>; \<open>m\<close>
  contains \<^verbatim>\<open>invalid address\<close>; \<open>m\<close> contains \<^verbatim>\<open>User rejected\<close>; otherwise the error is
  \<^verbatim>\<open>Transaction Failed: \<close> followed by \<open>m\<close>.
\<close>

theorem thrown_message_is_classified:
  assumes "wallet s = Some w"
    and "fst (validateAddress env (receiverAddress s))"
    and "fst (validateAmount (amount s))"
    and "snd (try_block env w s) = Some (WithMessage m)"
  shows "snd (sendTransaction env s) = Fulfilled
       \<and> \<not> isLoading (commit s (fst (sendTransaction env s)))
       \<and> (js_includes m (js ''insufficient funds'') \<longrightarrow>
            error (commit s (fst (sendTransaction env s)))
              = js ''Insufficient funds for this transaction.'')
       \<and> (\<not> js_includes m (js ''insufficient funds'') \<and> js_includes m (js ''invalid address'') \<longrightarrow>
            error (commit s (fst (sendTransaction env s))) = js ''Invalid wallet address.'')
       \<and> (\<not> js_includes m (js ''insufficient funds'') \<and> \<not> js_includes m (js ''invalid address'')
            \<and> js_includes m (js ''User rejected'') \<longrightarrow>
            error (commit s (fst (sendTransaction env s)))
              = js ''Transaction was rejected by the user.'')
       \<and> (\<not> js_includes m (js ''insufficient funds'') \<and> \<not> js_includes m (js ''invalid address'')
            \<and> \<not> js_includes m (js ''User rejected'') \<longrightarrow>
            error (commit s (fst (sendTransaction env s))) = js ''Transaction Failed: '' @ m)"
proof -
  obtain body where "try_block env w s = (body, Some (WithMessage m))"
    using assms(4) by (cases "try_block env w s") simp
  from sendTransaction_outcome [OF assms(1-3) this]
  have "snd (sendTransaction env s) = Fulfilled"
    and "error (commit s (fst (sendTransaction env s))) = errorMessage m"
    and "\<not> isLoading (commit s (fst (sendTransaction env s)))"
    by (simp_all add: commit_append)
  moreover have "js ''Transaction Failed'' @ js '': '' @ m = js ''Transaction Failed: '' @ m"
    by (simp add: js_def)
  ultimately show ?thesis
    by (simp add: errorMessage_def)
qed

theorem thrown_message_is_classified_witness:
  "wallet s_ready = Some sender_key
   \<and> fst (validateAddress env_rejecting (receiverAddress s_ready))
   \<and> fst (validateAmount (amount s_ready))
   \<and> snd (try_block env_rejecting sender_key s_ready)
       = Some (WithMessage (js ''User rejected the request.''))
   \<and> \<not> js_includes (js ''User rejected the request.'') (js ''insufficient funds'')
   \<and> \<not> js_includes (js ''User rejected the request.'') (js ''invalid address'')
   \<and> js_includes (js ''User rejected the request.'') (js ''User rejected'')
   \<and> error (commit s_ready (fst (sendTransaction env_rejecting s_ready)))
       = js ''Transaction was rejected by the user.''
   \<and> snd (sendTransaction env_rejecting s_ready) = Fulfilled
   \<and> fst (validateAddress env_invalid (receiverAddress s_ready))
   \<and> snd (try_block env_invalid sender_key s_ready) = Some (WithMessage (js ''invalid address''))
   \<and> js_includes (js ''invalid address'') (js ''invalid address'')
   \<and> error (commit s_ready (fst (sendTransaction env_invalid s_ready)))
       = js ''Invalid wallet address.''"
proof -
  have a: "fst (validateAddress env_rejecting (receiverAddress s_ready))"
    by (simp add: guards_ready(2) validateAddress_def env_rejecting_simps newPublicKey_ok_system)
  have t: "snd (try_block env_rejecting sender_key s_ready)
      = Some (WithMessage (js ''User rejected the request.''))"
    by (simp add: try_block_rejecting_ready)
  have i: "\<not> js_includes (js ''User rejected the request.'') (js ''insufficient funds'')"
    "\<not> js_includes (js ''User rejected the request.'') (js ''invalid address'')"
    "js_includes (js ''User rejected the request.'') (js ''User rejected'')"
    by (simp_all add: js_def)
  have t': "snd (try_block env_invalid sender_key s_ready)
      = Some (WithMessage (js ''invalid address''))"
    by (simp add: try_block_invalid_ready)
  have i': "\<not> js_includes (js ''invalid address'') (js ''insufficient funds'')"
    "js_includes (js ''invalid address'') (js ''invalid address'')"
    by (simp_all add: js_def)
  note rejected = thrown_message_is_classified [OF guards_ready(1) a guards_ready(3) t]
  note invalid =
    thrown_message_is_classified [OF guards_ready(1) guards_invalid_ready guards_ready(3) t']
  from rejected i
  have r: "error (commit s_ready (fst (sendTransaction env_rejecting s_ready)))
      = js ''Transaction was rejected by the user.''"
    "snd (sendTransaction env_rejecting s_ready) = Fulfilled"
    by blast+
  from invalid i'
  have v: "error (commit s_ready (fst (sendTransaction env_invalid s_ready)))
      = js ''Invalid wallet address.''"
    by blast
  from guards_ready(1,3) a t i r guards_invalid_ready t' i'(2) v show ?thesis
    by blast
qed

section \<open>A confirmation that fails after the broadcast\<close>




section \<open>Valid amounts and the range of the conversion\<close>

text \<open>
  Claim C9, as stated, fails: the validator accepts every string whose parsed value is
  greater than zero, and for a large one the product with \<open>10\<^sup>9\<close> overflows. After the
  amount \<^verbatim>\<open>1e300\<close> is typed the submit button is enabled, the amount is valid, and the
  conversion gives \<open>+\<infinity>\<close>, which is not a finite integer. A finite result need not be usable
  either: the valid amount \<^verbatim>\<open>18446744074\<close> converts to 18446744073999998976, which is above
  \<open>2\<^sup>6\<^sup>4 - 1\<close>, the largest count a transfer instruction carries.
\<close>

theorem valid_amount_overflows:
  "reachable s_large
   \<and> amount s_large = js ''1e300''
   \<and> \<not> submit_disabled s_large
   \<and> fst (validateAmount (amount s_large))
   \<and> lamports_of (amount s_large) = Infinity False
   \<and> fst (validateAmount (js ''18446744074''))
   \<and> lamports_of (js ''18446744074'') = Finite False 18446744073999998976
   \<and> \<not> usable_lamports (lamports_of (js ''18446744074''))"
proof -
  have "amount s_large = js ''1e300''" "\<not> submit_disabled s_large"
    by (simp_all add: s_large_eq submit_disabled_def)
  moreover have "fst (validateAmount (amount s_large))"
    "lamports_of (amount s_large) = Infinity False"
    by (simp_all add: s_large_eq validateAmount_def parseFloat_1e300 lamports_of_1e300)
  moreover have "fst (validateAmount (js ''18446744074''))"
    by (simp add: validateAmount_def parseFloat_2_64)
  moreover have "\<not> usable_lamports (lamports_of (js ''18446744074''))"
    unfolding lamports_of_2_64 using usable_lamports_iff [of 18446744073999998976] by simp
  ultimately show ?thesis
    using reachable_large lamports_of_2_64 by blast
qed

text \<open>
  Claim C9, amended. For every amount string that the validator accepts, the conversion
  (which has no failing path: \<open>lamports_of\<close> is total) gives a non-negative integer or
  \<open>+\<infinity>\<close>, never \<open>NaN\<close>. With \<open>p\<close> the parsed value, it gives \<open>+\<infinity>\<close> exactly when the product
  \<^verbatim>\<open>parseFloat(amount) * 1e9\<close> is \<open>+\<infinity>\<close>, that is when \<open>p\<close> is \<open>+\<infinity>\<close> or \<open>p \<sqdot> 10\<^sup>9\<close> is
  \<open>2\<^sup>1\<^sup>0\<^sup>2\<^sup>4 - 2\<^sup>9\<^sup>7\<^sup>0\<close> or more; and it gives a usable count, an integer below \<open>2\<^sup>6\<^sup>4\<close>, exactly
  when \<open>p\<close> is finite and \<open>p \<sqdot> 10\<^sup>9\<close> is below \<open>2\<^sup>6\<^sup>4 - 2\<^sup>1\<^sup>0\<close>.
\<close>

theorem lamports_of_valid_amount:
  assumes "fst (validateAmount a)"
  shows "(lamports_of a = Infinity False \<or> (\<exists>n::nat. lamports_of a = Finite False (of_nat n)))
       \<and> (lamports_of a = Infinity False
            \<longleftrightarrow> number_times (parseFloat a) (Finite False 1000000000) = Infinity False)
       \<and> (lamports_of a = Infinity False
            \<longleftrightarrow> parseFloat a = Infinity False
              \<or> (\<exists>p. parseFloat a = Finite False p \<and> 2 ^ 1024 - 2 ^ 970 \<le> p * 10 ^ 9))
       \<and> (usable_lamports (lamports_of a)
            \<longleftrightarrow> (\<exists>p. parseFloat a = Finite False p \<and> p * 10 ^ 9 < 2 ^ 64 - 2 ^ 10))"
  using assms
proof (cases rule: product_of_valid_cases)
  case infinite
  then have "lamports_of a = Infinity False"
    by (simp add: lamports_of_def)
  with infinite show ?thesis
    by (simp add: usable_lamports_def)
next
  case (overflow p)
  then have l: "lamports_of a = Infinity False"
    by (simp add: lamports_of_def)
  have "(2 ^ 64 - 2 ^ 10 :: rat) \<le> 2 ^ 1024 - 2 ^ 970"
    by simp
  with overflow(3) have "\<not> p * 10 ^ 9 < 2 ^ 64 - 2 ^ 10"
    by linarith
  with l overflow(2,3,4) show ?thesis
    by (simp add: usable_lamports_def)
next
  case (finite p x)
  have nonneg: "0 \<le> p * 10 ^ 9" and pos: "0 < p * 10 ^ 9"
    using finite(1) by simp_all
  have l: "lamports_of a = Finite False (of_int (round x))"
    using finite(4) by (simp only: lamports_of_def finite(5) Math_round_nonneg)
  from finite(4) have r: "0 \<le> round x"
    by (simp add: round_def)
  then have "of_int (round x) = (of_nat (nat (round x)) :: rat)"
    by simp
  with l have n: "\<exists>n::nat. lamports_of a = Finite False (of_nat n)"
    by metis
  from round_to_double_nearest [OF nonneg finite(6)] have "binary64_magnitude x"
    by simp
  then have "round x < 2 ^ 64 \<longleftrightarrow> x < 2 ^ 64"
    by (rule round_below_2_64 [OF finite(4)])
  also have "\<dots> \<longleftrightarrow> p * 10 ^ 9 < 2 ^ 64 - 2 ^ 10"
    by (rule round_to_double_below_2_64 [OF pos finite(6)])
  finally have "usable_lamports (lamports_of a) \<longleftrightarrow> p * 10 ^ 9 < 2 ^ 64 - 2 ^ 10"
    by (simp only: l usable_lamports_iff [OF r])
  moreover from finite(3) have "\<not> 2 ^ 1024 - 2 ^ 970 \<le> p * 10 ^ 9"
    by simp
  ultimately show ?thesis
    using l n finite(2,5) by simp
qed

theorem lamports_of_valid_amount_witness:
  "fst (validateAmount (js ''0.01''))
   \<and> lamports_of (js ''0.01'') = Finite False (of_nat 10000000)
   \<and> number_times (parseFloat (js ''0.01'')) (Finite False 1000000000) \<noteq> Infinity False
   \<and> usable_lamports (lamports_of (js ''0.01''))
   \<and> fst (validateAmount (js ''1e300''))
   \<and> lamports_of (js ''1e300'') = Infinity False
   \<and> number_times (parseFloat (js ''1e300'')) (Finite False 1000000000) = Infinity False
   \<and> fst (validateAmount (js ''1e-10''))
   \<and> lamports_of (js ''1e-10'') = Finite False (of_nat 0)
   \<and> usable_lamports (lamports_of (js ''1e-10''))"
proof -
  have v: "fst (validateAmount (js ''0.01''))"
    by (simp add: validateAmount_0_01)
  have v': "fst (validateAmount (js ''1e300''))"
    by (simp add: validateAmount_def parseFloat_1e300)
  have v'': "fst (validateAmount (js ''1e-10''))"
    by (simp add: validateAmount_def parseFloat_tiny)
  have l: "lamports_of (js ''0.01'') = Finite False (of_nat 10000000)"
    by (simp add: lamports_of_0_01)
  have l'': "lamports_of (js ''1e-10'') = Finite False (of_nat 0)"
    by (simp add: lamports_of_tiny)
  have "(5764607523034235 / 576460752303423488 :: rat) * 10 ^ 9 < 2 ^ 64 - 2 ^ 10"
    by simp
  with parseFloat_0_01
  have small: "\<exists>p. parseFloat (js ''0.01'') = Finite False p \<and> p * 10 ^ 9 < 2 ^ 64 - 2 ^ 10"
    by blast
  have "(7737125245533627 / 77371252455336267181195264 :: rat) * 10 ^ 9 < 2 ^ 64 - 2 ^ 10"
    by simp
  with parseFloat_tiny
  have tiny: "\<exists>p. parseFloat (js ''1e-10'') = Finite False p \<and> p * 10 ^ 9 < 2 ^ 64 - 2 ^ 10"
    by blast
  have "(2 ^ 1024 - 2 ^ 970 :: rat) \<le> 1000000000000000052504760255204420248704468581108159154915854115511802457988908195786371375080447864043704443832883878176942523235360430575644792184786706982848387200926575803737830233794788090059368953234970799945081119038967640880074652742780142494579258788820056842838115669472196386865459400540160 * 10 ^ 9"
    by simp
  with parseFloat_1e300
  have large: "\<exists>p. parseFloat (js ''1e300'') = Finite False p \<and> 2 ^ 1024 - 2 ^ 970 \<le> p * 10 ^ 9"
    by blast
  from lamports_of_valid_amount [OF v] l small
  have f: "number_times (parseFloat (js ''0.01'')) (Finite False 1000000000) \<noteq> Infinity False"
    and u: "usable_lamports (lamports_of (js ''0.01''))"
    by simp_all
  from lamports_of_valid_amount [OF v'] large
  have i: "lamports_of (js ''1e300'') = Infinity False"
    and i': "number_times (parseFloat (js ''1e300'')) (Finite False 1000000000) = Infinity False"
    by blast+
  from lamports_of_valid_amount [OF v''] tiny
  have u'': "usable_lamports (lamports_of (js ''1e-10''))"
    by blast
  from v l f u v' i i' v'' l'' u'' show ?thesis
    by blast
qed

section \<open>An input changed to the empty string\<close>

text \<open>
  Claim C10. When the address or the amount field is changed to the empty string, the
  handler only stores the empty value: the validator is not called and the validity flag
  keeps its value. Both flags start as true, so right after a wallet is connected the
  address field is empty and the submit button is enabled.
\<close>

theorem empty_input_keeps_validity_flag:
  "handleAddressChange env [] = [SetReceiverAddress []]
   \<and> isAddressValid (commit s (handleAddressChange env [])) = isAddressValid s
   \<and> handleAmountChange [] = [SetAmount []]
   \<and> isAmountValid (commit s (handleAmountChange [])) = isAmountValid s
   \<and> isAddressValid initial_state \<and> isAmountValid initial_state
   \<and> reachable s_connected \<and> wallet s_connected = Some sender_key
   \<and> receiverAddress s_connected = [] \<and> \<not> submit_disabled s_connected"
proof -
  have "handleAddressChange env [] = [SetReceiverAddress []]"
    and "isAddressValid (commit s (handleAddressChange env [])) = isAddressValid s"
    and "handleAmountChange [] = [SetAmount []]"
    and "isAmountValid (commit s (handleAmountChange [])) = isAmountValid s"
    by (simp_all add: handleAddressChange_def handleAmountChange_def)
  moreover have "isAddressValid initial_state" "isAmountValid initial_state"
    by (simp_all add: initial_state_def)
  moreover have "wallet s_connected = Some sender_key" "receiverAddress s_connected = []"
    "\<not> submit_disabled s_connected"
    by (simp_all add: s_connected_eq submit_disabled_def)
  ultimately show ?thesis
    using reachable_connected by blast
qed

theorem empty_input_keeps_validity_flag_witness:
  "s_cleared = commit s_done (handleAddressChange env_ok [])
   \<and> isAddressValid s_done
   \<and> isAddressValid s_cleared
   \<and> receiverAddress s_cleared = []
   \<and> \<not> submit_disabled s_cleared
   \<and> isAmountValid (commit s_zero (handleAmountChange [])) = False"
proof -
  note edit = empty_input_keeps_validity_flag [of env_ok s_done]
  note edit' = empty_input_keeps_validity_flag [of env_ok s_zero]
  have "isAddressValid s_done"
    by (simp add: s_done_eq)
  with edit have "isAddressValid s_cleared"
    unfolding s_cleared_def by blast
  moreover have "isAmountValid s_zero = False"
    by (simp add: s_zero_eq)
  with edit' have "isAmountValid (commit s_zero (handleAmountChange [])) = False"
    by simp
  moreover have "receiverAddress s_cleared = []" "\<not> submit_disabled s_cleared"
    by (simp_all add: s_cleared_eq submit_disabled_def)
  ultimately show ?thesis
    using \<open>isAddressValid s_done\<close> s_cleared_def by blast
qed

end
